theory Spec2Isabelle
  imports Complex_Main
begin

section \<open>SpyBOAT processing core: a shallow embedding of \<^verbatim>\<open>spyboat/processing.py\<close>\<close>

text \<open>
  The module transforms a movie (a 3-dimensional numpy array with axes frame, row, column)
  pixel by pixel with the wavelet routines of the pyboat library, either in one process
  (\<^verbatim>\<open>transform_stack\<close>) or split row-wise over a process pool (\<^verbatim>\<open>run_parallel\<close>).

  Conventions of the embedding:
  \<^item> a Python exception is a value of type \<open>'e exn\<close>; a function that may raise returns
    \<open>'e exn + 'a\<close>, with \<open>Inl\<close> for the exception;
  \<^item> floating-point numbers are the elements of an ordered field \<open>'a\<close> with exact
    arithmetic; rounding a value to the element type of the array it is stored in is the
    parameter \<open>astype\<close>;
  \<^item> the functions of pyboat, scikit-image and the numpy reductions are not part of the
    module: they are parameters (the record \<open>env\<close>), each a function of its arguments
    that returns a value or raises;
  \<^item> an array carries its shape and element type explicitly, next to its elements as
    nested lists (frames of rows of values).
\<close>

subsection \<open>Exceptions\<close>

datatype 'e exn =
    ValueError string
  | IndexError string
  | NameError string
  | Raised 'e  \<comment> \<open>an exception raised inside an external library routine\<close>

subsection \<open>Arrays\<close>

datatype np_dtype = UInt8 | UInt16 | Float32 | Float64

record 'a ndarray =
  shape :: "nat \<times> nat \<times> nat"  \<comment> \<open>(NFrames, ydim, xdim)\<close>
  dtype :: np_dtype
  frames :: "'a list list list"

text \<open>The elements agree with the declared shape.\<close>

definition wf_array :: "'a ndarray \<Rightarrow> bool" where
  "wf_array a =
     (case shape a of (N, H, W) \<Rightarrow>
        length (frames a) = N \<and>
        list_all (\<lambda>fr. length fr = H \<and> list_all (\<lambda>row. length row = W) fr) (frames a))"

text \<open>\<^verbatim>\<open>np.zeros(shape, dtype=dt)\<close>.\<close>

definition np_zeros :: "nat \<times> nat \<times> nat \<Rightarrow> np_dtype \<Rightarrow> ('a::zero) ndarray" where
  "np_zeros shp dt =
     (case shp of (N, H, W) \<Rightarrow>
        \<lparr>shape = shp, dtype = dt, frames = replicate N (replicate H (replicate W 0))\<rparr>)"

text \<open>The read \<^verbatim>\<open>movie[:, y, x]\<close>: the time series at one pixel.\<close>

definition get_column :: "'a ndarray \<Rightarrow> nat \<Rightarrow> nat \<Rightarrow> 'a list" where
  "get_column a y x = map (\<lambda>fr. fr ! y ! x) (frames a)"

text \<open>
  Assigning a 1-dimensional array to a slot of length \<open>N\<close> follows numpy's broadcasting:
  the lengths agree, or the assigned array has one element, or the assignment raises.
\<close>

definition broadcast_to :: "nat \<Rightarrow> 'a list \<Rightarrow> 'e exn + 'a list" where
  "broadcast_to N vals =
     (if length vals = N then Inr vals
      else if length vals = 1 then Inr (replicate N (hd vals))
      else Inl (ValueError ''could not broadcast input array''))"

text \<open>
  The write \<^verbatim>\<open>a[:, y, x] = vals\<close>: the values are cast to the element type of \<open>a\<close>.
\<close>

definition set_column ::
  "(np_dtype \<Rightarrow> 'a \<Rightarrow> 'a) \<Rightarrow> 'a ndarray \<Rightarrow> nat \<Rightarrow> nat \<Rightarrow> 'a list \<Rightarrow> 'e exn + 'a ndarray" where
  "set_column cast a y x vals =
     (case broadcast_to (fst (shape a)) vals of
        Inl e \<Rightarrow> Inl e
      | Inr vs \<Rightarrow>
          Inr (a\<lparr>frames :=
                 map2 (\<lambda>fr v. fr[y := (fr ! y)[x := cast (dtype a) v]]) (frames a) vs\<rparr>))"

text \<open>Indexing a 1-dimensional array with a Python integer: a negative index counts from the end.\<close>

definition py_index :: "'a list \<Rightarrow> int \<Rightarrow> 'e exn + 'a" where
  "py_index xs i =
     (let n = int (length xs); j = (if i < 0 then i + n else i)
      in if 0 \<le> j \<and> j < n then Inr (xs ! nat j)
         else Inl (IndexError ''index is out of bounds''))"

text \<open>Running a list of computations in order; the first exception wins.\<close>

fun sequence :: "('e + 'a) list \<Rightarrow> 'e + 'a list" where
  "sequence [] = Inr []"
| "sequence (r # rs) =
     (case r of
        Inl e \<Rightarrow> Inl e
      | Inr v \<Rightarrow> (case sequence rs of Inl e \<Rightarrow> Inl e | Inr vs \<Rightarrow> Inr (v # vs)))"

text \<open>\<^verbatim>\<open>periods[ridge_ys]\<close>: indexing with an integer array.\<close>

definition take_indices :: "'a list \<Rightarrow> int list \<Rightarrow> 'e exn + 'a list" where
  "take_indices xs idx = sequence (map (py_index xs) idx)"

text \<open>
  \<^verbatim>\<open>m[rows, cols]\<close> with two integer arrays: the index arrays are broadcast against each
  other, then each pair selects one element.
\<close>

definition broadcast_indices :: "int list \<Rightarrow> int list \<Rightarrow> 'e exn + (int \<times> int) list" where
  "broadcast_indices rs cs =
     (if length rs = length cs then Inr (zip rs cs)
      else if length rs = 1 then Inr (map (\<lambda>c. (hd rs, c)) cs)
      else if length cs = 1 then Inr (map (\<lambda>r. (r, hd cs)) rs)
      else Inl (IndexError ''shape mismatch: indexing arrays could not be broadcast together''))"

definition take_pairs :: "'a list list \<Rightarrow> int list \<Rightarrow> int list \<Rightarrow> 'e exn + 'a list" where
  "take_pairs m rs cs =
     (case broadcast_indices rs cs of
        Inl e \<Rightarrow> Inl e
      | Inr ps \<Rightarrow>
          sequence (map (\<lambda>(r, c). case py_index m r of
                                     Inl e \<Rightarrow> Inl e
                                   | Inr row \<Rightarrow> py_index row c) ps))"

text \<open>\<^verbatim>\<open>np.arange(Nt)\<close>.\<close>

definition np_arange :: "nat \<Rightarrow> int list" where
  "np_arange n = map int [0..<n]"

text \<open>
  Element-wise subtraction of two 1-dimensional arrays, \<^verbatim>\<open>a - b\<close>, with numpy's
  broadcasting of a one-element operand.
\<close>

definition np_subtract :: "('a::minus) list \<Rightarrow> 'a list \<Rightarrow> 'e exn + 'a list" where
  "np_subtract a b =
     (if length a = length b then Inr (map2 (\<lambda>u v. u - v) a b)
      else if length b = 1 then Inr (map (\<lambda>u. u - hd b) a)
      else if length a = 1 then Inr (map (\<lambda>v. hd a - v) b)
      else Inl (ValueError ''operands could not be broadcast together''))"

text \<open>Modelled from the spec: \<^verbatim>\<open>np.linspace(start, stop, num)\<close> is numpy's; the module only
  calls it. The spec's Period Grid is "an ordered sequence of nT candidate periods, linearly
  spaced between Tmin and Tmax inclusive". The definition follows numpy's computation in
  exact arithmetic: \<open>num\<close> samples \<open>start + i * step\<close> with \<open>step = (stop - start) / (num - 1)\<close>,
  the last sample set to \<open>stop\<close>; one sample \<open>start\<close> for \<open>num = 1\<close>; no sample for
  \<open>num = 0\<close>; a \<^verbatim>\<open>ValueError\<close> for a negative \<open>num\<close>.\<close>

definition np_linspace :: "('a::linordered_field) \<Rightarrow> 'a \<Rightarrow> int \<Rightarrow> 'e exn + 'a list" where
  "np_linspace start stop num =
     (if num < 0 then Inl (ValueError ''Number of samples must be non-negative.'')
      else
        let n = nat num;
            dv = n - 1;
            delta = stop - start;
            y = (if 0 < dv
                 then map (\<lambda>i. of_nat i * (delta / of_nat dv) + start) [0..<n]
                 else map (\<lambda>i. of_nat i * delta + start) [0..<n])
        in Inr (if 1 < n then y[n - 1 := stop] else y))"

subsection \<open>The external routines\<close>

text \<open>
  The routines the module calls and does not define: pyboat's (\<^verbatim>\<open>pb.sinc_smooth\<close>,
  \<^verbatim>\<open>pb.normalize_with_envelope\<close>, \<^verbatim>\<open>pb.compute_spectrum\<close>, \<^verbatim>\<open>pb.get_maxRidge_ys\<close>,
  \<^verbatim>\<open>pb.core.power_to_amplitude\<close>), numpy's \<^verbatim>\<open>np.std\<close> and \<^verbatim>\<open>np.angle\<close>, the cast to an
  array's element type, \<^verbatim>\<open>mp.cpu_count()\<close> and scikit-image's \<^verbatim>\<open>rescale\<close>. Each is a
  function of its arguments: it returns a value or raises (\<open>Inl\<close>), and leaves its
  arguments as they are. \<open>'c\<close> is the type of the complex wavelet coefficients, \<open>'x\<close> of
  the second component that \<^verbatim>\<open>get_maxRidge_ys\<close> returns and the module drops.
\<close>

record 'a image =
  im_shape :: "nat \<times> nat"  \<comment> \<open>(ydim, xdim)\<close>
  im_dtype :: np_dtype
  im_rows :: "'a list list"

record ('a, 'c, 'x, 'e) env =
  sinc_smooth :: "'a list \<Rightarrow> 'a \<Rightarrow> 'a \<Rightarrow> 'e + 'a list"
  normalize_with_envelope :: "'a list \<Rightarrow> 'a \<Rightarrow> 'a \<Rightarrow> 'e + 'a list"
  compute_spectrum :: "'a list \<Rightarrow> 'a \<Rightarrow> 'a list \<Rightarrow> 'e + ('a list list \<times> 'c list list)"
  get_maxRidge_ys :: "'a list list \<Rightarrow> 'e + (int list \<times> 'x)"
  power_to_amplitude :: "'a list \<Rightarrow> 'a list \<Rightarrow> 'a \<Rightarrow> 'a \<Rightarrow> 'e + 'a list"
  np_std :: "'a list \<Rightarrow> 'a"
  np_angle :: "'c \<Rightarrow> 'a"
  astype :: "np_dtype \<Rightarrow> 'a \<Rightarrow> 'a"
  cpu_count :: int
  rescale :: "'a image \<Rightarrow> 'a \<Rightarrow> 'e + 'a image"

subsection \<open>\<^verbatim>\<open>transform_stack\<close>: the transform of one pixel\<close>

text \<open>
  Lines 163 to 173: the spectrum of the prepared signal, the ridge through it, and the
  four read-outs along the ridge (phases, periods, powers, amplitudes).
\<close>

definition ridge_readout ::
  "('a, 'c, 'x, 'e) env \<Rightarrow> 'a \<Rightarrow> 'a list \<Rightarrow> 'a list \<Rightarrow>
     'e exn + ('a list \<times> 'a list \<times> 'a list \<times> 'a list)" where
  "ridge_readout ev dt periods signal =
     (let sigma = np_std ev signal;
          Nt = length signal
      in case compute_spectrum ev signal dt periods of
           Inl e \<Rightarrow> Inl (Raised e)
         | Inr (modulus, wlet) \<Rightarrow>
       (case get_maxRidge_ys ev modulus of
           Inl e \<Rightarrow> Inl (Raised e)
         | Inr (ridge_ys, _) \<Rightarrow>
       (case take_indices periods ridge_ys of
           Inl e \<Rightarrow> Inl e
         | Inr ridge_periods \<Rightarrow>
       (case take_pairs modulus ridge_ys (np_arange Nt) of
           Inl e \<Rightarrow> Inl e
         | Inr powers \<Rightarrow>
       (case take_pairs wlet ridge_ys (np_arange Nt) of
           Inl e \<Rightarrow> Inl e
         | Inr coeffs \<Rightarrow>
       (let phases = map (np_angle ev) coeffs
        in case power_to_amplitude ev ridge_periods powers sigma dt of
             Inl e \<Rightarrow> Inl (Raised e)
           | Inr amplitudes \<Rightarrow> Inr (phases, ridge_periods, powers, amplitudes)))))))"

text \<open>
  Lines 152 to 173: detrending when \<open>T_c\<close> is given, amplitude normalization when \<open>L\<close> is
  given, then the read-out. \<open>None\<close> is Python's \<^verbatim>\<open>None\<close>.
\<close>

definition pixel_transform ::
  "('a::linordered_field, 'c, 'x, 'e) env \<Rightarrow> 'a \<Rightarrow> 'a list \<Rightarrow> 'a option \<Rightarrow> 'a option \<Rightarrow> 'a list \<Rightarrow>
     'e exn + ('a list \<times> 'a list \<times> 'a list \<times> 'a list)" where
  "pixel_transform ev dt periods T_c L input_vec =
     (let signal = input_vec
      in case (case T_c of
                 None \<Rightarrow> Inr signal
               | Some c \<Rightarrow>
                   (case sinc_smooth ev input_vec c dt of
                      Inl e \<Rightarrow> Inl (Raised e)
                    | Inr trend \<Rightarrow> np_subtract signal trend)) of
           Inl e \<Rightarrow> Inl e
         | Inr signal \<Rightarrow>
       (case (case L of
                None \<Rightarrow> Inr signal
              | Some l \<Rightarrow>
                  (case normalize_with_envelope ev signal l dt of
                     Inl e \<Rightarrow> Inl (Raised e)
                   | Inr s \<Rightarrow> Inr s)) of
           Inl e \<Rightarrow> Inl e
         | Inr signal \<Rightarrow> ridge_readout ev dt periods signal))"

subsection \<open>\<^verbatim>\<open>transform_stack\<close>: the loop over the pixels\<close>

text \<open>
  The array-valued local variables of \<^verbatim>\<open>transform_stack\<close> (and of \<^verbatim>\<open>run_parallel\<close>, which
  uses the same names): the input and the four outputs. The loop passes this state along;
  a write to one array changes that field only.
\<close>

record 'a movie_vars =
  movie :: "'a ndarray"
  phase_movie :: "'a ndarray"
  period_movie :: "'a ndarray"
  power_movie :: "'a ndarray"
  amplitude_movie :: "'a ndarray"

text \<open>A \<^verbatim>\<open>for\<close> loop whose body may raise.\<close>

fun for_each :: "'i list \<Rightarrow> ('i \<Rightarrow> 's \<Rightarrow> 'e + 's) \<Rightarrow> 's \<Rightarrow> 'e + 's" where
  "for_each [] body s = Inr s"
| "for_each (i # is) body s =
     (case body i s of Inl e \<Rightarrow> Inl e | Inr s' \<Rightarrow> for_each is body s')"

text \<open>
  Lines 150 to 178, the body of the loop at the pixel \<open>(x, y)\<close>. The progress messages of
  lines 142 to 148 go to standard output and are left out; they cannot raise (the modulus
  of line 147 is taken only when \<open>Npixels \<ge> 10\<close>, so its divisor is at least 1).
\<close>

definition transform_pixel ::
  "('a::linordered_field, 'c, 'x, 'e) env \<Rightarrow> 'a \<Rightarrow> 'a list \<Rightarrow> 'a option \<Rightarrow> 'a option \<Rightarrow>
     nat \<Rightarrow> nat \<Rightarrow> 'a movie_vars \<Rightarrow> 'e exn + 'a movie_vars" where
  "transform_pixel ev dt periods T_c L x y st =
     (let input_vec = get_column (movie st) y x
      in case pixel_transform ev dt periods T_c L input_vec of
           Inl e \<Rightarrow> Inl e
         | Inr (phases, ridge_periods, powers, amplitudes) \<Rightarrow>
       (case set_column (astype ev) (phase_movie st) y x phases of
           Inl e \<Rightarrow> Inl e
         | Inr a1 \<Rightarrow>
       (case set_column (astype ev) (period_movie st) y x ridge_periods of
           Inl e \<Rightarrow> Inl e
         | Inr a2 \<Rightarrow>
       (case set_column (astype ev) (power_movie st) y x powers of
           Inl e \<Rightarrow> Inl e
         | Inr a3 \<Rightarrow>
       (case set_column (astype ev) (amplitude_movie st) y x amplitudes of
           Inl e \<Rightarrow> Inl e
         | Inr a4 \<Rightarrow>
             Inr (st\<lparr>phase_movie := a1, period_movie := a2,
                     power_movie := a3, amplitude_movie := a4\<rparr>))))))"

text \<open>Lines 124 to 178: the four output arrays and the loop, for a given period grid.\<close>

definition transform_loop ::
  "('a::linordered_field, 'c, 'x, 'e) env \<Rightarrow> 'a \<Rightarrow> 'a list \<Rightarrow> 'a option \<Rightarrow> 'a option \<Rightarrow>
     'a ndarray \<Rightarrow> 'e exn + 'a movie_vars" where
  "transform_loop ev dt periods T_c L mov =
     (let st = \<lparr>movie = mov,
                phase_movie = np_zeros (shape mov) Float32,
                period_movie = np_zeros (shape mov) Float32,
                power_movie = np_zeros (shape mov) Float32,
                amplitude_movie = np_zeros (shape mov) Float32\<rparr>;
          ydim = fst (snd (shape mov));
          xdim = snd (snd (shape mov))
      in for_each [0..<xdim]
           (\<lambda>x. for_each [0..<ydim] (\<lambda>y. transform_pixel ev dt periods T_c L x y)) st)"

text \<open>
  \<^verbatim>\<open>transform_stack\<close> up to its \<^verbatim>\<open>return\<close>: the period grid (line 122), then the loop. The
  result is the state of the local variables when the function returns.
\<close>

definition transform_stack_vars ::
  "('a::linordered_field, 'c, 'x, 'e) env \<Rightarrow> 'a ndarray \<Rightarrow> 'a \<Rightarrow> 'a \<Rightarrow> 'a \<Rightarrow> int \<Rightarrow>
     'a option \<Rightarrow> 'a option \<Rightarrow> 'e exn + 'a movie_vars" where
  "transform_stack_vars ev mov dt Tmin Tmax nT T_c L =
     (case np_linspace Tmin Tmax nT of
        Inl e \<Rightarrow> Inl e
      | Inr periods \<Rightarrow> transform_loop ev dt periods T_c L mov)"

text \<open>Line 180: the returned tuple.\<close>

definition returned ::
  "'a movie_vars \<Rightarrow> 'a ndarray \<times> 'a ndarray \<times> 'a ndarray \<times> 'a ndarray" where
  "returned st = (phase_movie st, period_movie st, power_movie st, amplitude_movie st)"

definition transform_stack ::
  "('a::linordered_field, 'c, 'x, 'e) env \<Rightarrow> 'a ndarray \<Rightarrow> 'a \<Rightarrow> 'a \<Rightarrow> 'a \<Rightarrow> int \<Rightarrow>
     'a option \<Rightarrow> 'a option \<Rightarrow>
     'e exn + ('a ndarray \<times> 'a ndarray \<times> 'a ndarray \<times> 'a ndarray)" where
  "transform_stack ev mov dt Tmin Tmax nT T_c L =
     (case transform_stack_vars ev mov dt Tmin Tmax nT T_c L of
        Inl e \<Rightarrow> Inl e
      | Inr st \<Rightarrow> Inr (returned st))"

subsection \<open>\<^verbatim>\<open>run_parallel\<close>: splitting, the pool, joining\<close>

text \<open>Modelled from the spec: \<^verbatim>\<open>np.array_split(movie, n, axis = 1)\<close> is numpy's; the module
  only calls it. The spec asks for "exactly n contiguous, near-equal-size slices covering
  the full extent with no overlap and no gap (standard as-equal-as-possible contiguous
  partition; sizes may differ by at most one row between slices)". The definition follows
  numpy's computation: with \<open>Ntotal\<close> rows and \<open>Nsections\<close> sections, the first
  \<open>Ntotal mod Nsections\<close> sections have \<open>Ntotal div Nsections + 1\<close> rows and the others
  \<open>Ntotal div Nsections\<close>; the running sums of the sizes are the division points, and
  section \<open>i\<close> is the slice \<^verbatim>\<open>[st:end]\<close> between two neighbouring points. A section count
  that is not positive raises \<^verbatim>\<open>ValueError\<close>.\<close>

definition section_sizes :: "nat \<Rightarrow> nat \<Rightarrow> nat list" where
  "section_sizes Ntotal Nsections =
     replicate (Ntotal mod Nsections) (Ntotal div Nsections + 1) @
     replicate (Nsections - Ntotal mod Nsections) (Ntotal div Nsections)"

fun div_slices :: "nat \<Rightarrow> nat list \<Rightarrow> (nat \<times> nat) list" where
  "div_slices st [] = []"
| "div_slices st (k # ks) = (st, st + k) # div_slices (st + k) ks"

text \<open>The rows \<^verbatim>\<open>[st:end]\<close> of every frame (a Python slice, cut off at the array's end).\<close>

definition slice_rows :: "'a ndarray \<Rightarrow> nat \<Rightarrow> nat \<Rightarrow> 'a ndarray" where
  "slice_rows a st en =
     (case shape a of (N, H, W) \<Rightarrow>
        a\<lparr>shape := (N, min en H - min st H, W),
          frames := map (\<lambda>fr. take (en - st) (drop st fr)) (frames a)\<rparr>)"

definition np_array_split :: "'a ndarray \<Rightarrow> int \<Rightarrow> 'e exn + 'a ndarray list" where
  "np_array_split a n =
     (if n \<le> 0 then Inl (ValueError ''number sections must be larger than 0.'')
      else Inr (map (\<lambda>(st, en). slice_rows a st en)
                  (div_slices 0 (section_sizes (fst (snd (shape a))) (nat n)))))"

text \<open>Modelled from the spec: \<^verbatim>\<open>np.concatenate(arrays, axis = 1)\<close> is numpy's; the module
  only calls it. The spec: "Concatenate each of the four result kinds across slices along
  the row axis, in the same order the slices were produced". As in numpy, an empty list of
  arrays and arrays that differ in another axis raise \<^verbatim>\<open>ValueError\<close>, and the element type
  of the result is the common type of the arguments (among the four element types here the
  larger one; such a conversion changes no value).\<close>

fun dtype_rank :: "np_dtype \<Rightarrow> nat" where
  "dtype_rank UInt8 = 0"
| "dtype_rank UInt16 = 1"
| "dtype_rank Float32 = 2"
| "dtype_rank Float64 = 3"

definition promote_types :: "np_dtype \<Rightarrow> np_dtype \<Rightarrow> np_dtype" where
  "promote_types s t = (if dtype_rank s \<le> dtype_rank t then t else s)"

definition np_concatenate :: "'a ndarray list \<Rightarrow> 'e exn + 'a ndarray" where
  "np_concatenate arrays =
     (case arrays of
        [] \<Rightarrow> Inl (ValueError ''need at least one array to concatenate'')
      | a # rest \<Rightarrow>
          (case shape a of (N, H, W) \<Rightarrow>
             if list_all (\<lambda>b. fst (shape b) = N \<and> snd (snd (shape b)) = W) rest
             then Inr \<lparr>shape = (N, sum_list (map (\<lambda>b. fst (snd (shape b))) arrays), W),
                       dtype = foldl promote_types (dtype a) (map dtype rest),
                       frames = map (\<lambda>f. concat (map (\<lambda>b. frames b ! f) arrays)) [0..<N]\<rparr>
             else Inl (ValueError
               ''all the input array dimensions except for the concatenation axis must match exactly'')))"

text \<open>\<^verbatim>\<open>mp.Pool(n)\<close> refuses a process count below one.\<close>

definition mp_Pool :: "int \<Rightarrow> 'e exn + unit" where
  "mp_Pool processes =
     (if processes < 1 then Inl (ValueError ''Number of processes must be at least 1'')
      else Inr ())"

text \<open>
  \<^verbatim>\<open>pool.starmap(f, args)\<close>: the results in the order of the arguments. The workers are
  separate processes that share no memory, each call of \<open>f\<close> is a function of its
  arguments, and an exception in a worker is raised by \<^verbatim>\<open>starmap\<close>. When several workers
  raise, the model reports the exception of the first slice.
\<close>

definition starmap :: "('b \<Rightarrow> 'e + 'r) \<Rightarrow> 'b list \<Rightarrow> 'e + 'r list" where
  "starmap f args = sequence (map f args)"

text \<open>
  The names that are bound when line 226 of \<^verbatim>\<open>run_parallel\<close> runs: its parameters, the
  local \<^verbatim>\<open>ncpu_avail\<close>, and the names of the module. Reading any other name raises
  \<^verbatim>\<open>NameError\<close> (Python has no builtin called \<^verbatim>\<open>ncpu_req\<close>).
\<close>

definition run_parallel_scope :: "string list" where
  "run_parallel_scope =
     [''movie'', ''n_cpu'', ''dt'', ''Tmin'', ''Tmax'', ''nT'', ''T_c'', ''L'', ''ncpu_avail'',
      ''sys'', ''np'', ''mp'', ''rescale'', ''gaussian'', ''pb'',
      ''down_sample'', ''gaussian_blur'', ''transform_stack'', ''run_parallel'']"

fun read_names :: "string list \<Rightarrow> string list \<Rightarrow> 'e exn + unit" where
  "read_names scope [] = Inr ()"
| "read_names scope (n # ns) =
     (if n \<in> set scope then read_names scope ns else Inl (NameError n))"

text \<open>
  Lines 221 to 252. The messages go to standard output and are left out, but for the names
  that the message of line 226 reads: \<^verbatim>\<open>ncpu_req\<close> and \<^verbatim>\<open>ncpu_avail\<close>. The result is
  the state of the local variables at the \<^verbatim>\<open>return\<close>.
\<close>

definition run_parallel_vars ::
  "('a::linordered_field, 'c, 'x, 'e) env \<Rightarrow> 'a ndarray \<Rightarrow> int \<Rightarrow> 'a \<Rightarrow> 'a \<Rightarrow> 'a \<Rightarrow> int \<Rightarrow>
     'a option \<Rightarrow> 'a option \<Rightarrow> 'e exn + 'a movie_vars" where
  "run_parallel_vars ev mov n_cpu dt Tmin Tmax nT T_c L =
     (let ncpu_avail = cpu_count ev
      in case (if n_cpu > ncpu_avail
               then (case read_names run_parallel_scope [''ncpu_req'', ''ncpu_avail''] of
                       Inl e \<Rightarrow> Inl e
                     | Inr _ \<Rightarrow> Inr ncpu_avail)
               else Inr n_cpu) of
           Inl e \<Rightarrow> Inl e
         | Inr n_cpu \<Rightarrow>
       (case mp_Pool n_cpu of
           Inl e \<Rightarrow> Inl e
         | Inr pool \<Rightarrow>
       (case np_array_split mov n_cpu of
           Inl e \<Rightarrow> Inl e
         | Inr movie_split \<Rightarrow>
       (case starmap (\<lambda>m. transform_stack ev m dt Tmin Tmax nT T_c L) movie_split of
           Inl e \<Rightarrow> Inl e
         | Inr res_movies \<Rightarrow>
       (case np_concatenate (map (\<lambda>r. fst r) res_movies) of
           Inl e \<Rightarrow> Inl e
         | Inr a1 \<Rightarrow>
       (case np_concatenate (map (\<lambda>r. fst (snd r)) res_movies) of
           Inl e \<Rightarrow> Inl e
         | Inr a2 \<Rightarrow>
       (case np_concatenate (map (\<lambda>r. fst (snd (snd r))) res_movies) of
           Inl e \<Rightarrow> Inl e
         | Inr a3 \<Rightarrow>
       (case np_concatenate (map (\<lambda>r. snd (snd (snd r))) res_movies) of
           Inl e \<Rightarrow> Inl e
         | Inr a4 \<Rightarrow>
             Inr \<lparr>movie = mov, phase_movie = a1, period_movie = a2,
                   power_movie = a3, amplitude_movie = a4\<rparr>))))))))"

definition run_parallel ::
  "('a::linordered_field, 'c, 'x, 'e) env \<Rightarrow> 'a ndarray \<Rightarrow> int \<Rightarrow> 'a \<Rightarrow> 'a \<Rightarrow> 'a \<Rightarrow> int \<Rightarrow>
     'a option \<Rightarrow> 'a option \<Rightarrow>
     'e exn + ('a ndarray \<times> 'a ndarray \<times> 'a ndarray \<times> 'a ndarray)" where
  "run_parallel ev mov n_cpu dt Tmin Tmax nT T_c L =
     (case run_parallel_vars ev mov n_cpu dt Tmin Tmax nT T_c L of
        Inl e \<Rightarrow> Inl e
      | Inr st \<Rightarrow> Inr (returned st))"

subsection \<open>\<^verbatim>\<open>down_sample\<close>\<close>

text \<open>\<^verbatim>\<open>movie[frame, ...]\<close>: one frame, or \<^verbatim>\<open>IndexError\<close> past the last frame.\<close>

definition get_frame :: "'a ndarray \<Rightarrow> nat \<Rightarrow> 'e exn + 'a image" where
  "get_frame a f =
     (case shape a of (N, H, W) \<Rightarrow>
        if f < N then Inr \<lparr>im_shape = (H, W), im_dtype = dtype a, im_rows = frames a ! f\<rparr>
        else Inl (IndexError ''index is out of bounds''))"

text \<open>
  \<^verbatim>\<open>a[frame, ...] = img\<close>: the image is broadcast to the shape of a frame (an axis of
  length one is repeated) and cast to the element type of \<open>a\<close>, or the assignment raises.
\<close>

definition set_frame ::
  "(np_dtype \<Rightarrow> 'a \<Rightarrow> 'a) \<Rightarrow> 'a ndarray \<Rightarrow> nat \<Rightarrow> 'a image \<Rightarrow> 'e exn + 'a ndarray" where
  "set_frame cast a f img =
     (case shape a of (N, H, W) \<Rightarrow>
        (case im_shape img of (h, w) \<Rightarrow>
           if (h = H \<or> h = 1) \<and> (w = W \<or> w = 1)
           then Inr (a\<lparr>frames := (frames a)[f :=
                  map (\<lambda>y. map (\<lambda>x. cast (dtype a)
                         (im_rows img ! (if h = 1 then 0 else y) ! (if w = 1 then 0 else x)))
                       [0..<W]) [0..<H]]\<rparr>)
           else Inl (ValueError ''could not broadcast input array'')))"

text \<open>Lines 44 to 55.\<close>

definition down_sample ::
  "('a::linordered_field, 'c, 'x, 'e) env \<Rightarrow> 'a ndarray \<Rightarrow> 'a \<Rightarrow> 'e exn + 'a ndarray" where
  "down_sample ev mov scale_factor =
     (if scale_factor > 1 then Inl (ValueError ''Upscaling is not supported!'')
      else
        case get_frame mov 0 of
          Inl e \<Rightarrow> Inl e
        | Inr first \<Rightarrow>
        (case rescale ev first scale_factor of
          Inl e \<Rightarrow> Inl (Raised e)
        | Inr frame1 \<Rightarrow>
        (let movie_ds = np_zeros (fst (shape mov), fst (im_shape frame1), snd (im_shape frame1))
                          Float64
         in for_each [0..<fst (shape mov)]
              (\<lambda>frame ds.
                 case get_frame mov frame of
                   Inl e \<Rightarrow> Inl e
                 | Inr img \<Rightarrow>
                 (case rescale ev img scale_factor of
                   Inl e \<Rightarrow> Inl (Raised e)
                 | Inr small \<Rightarrow> set_frame (astype ev) ds frame small))
              movie_ds)))"

subsection \<open>Notions used to state and prove the properties\<close>

text \<open>The array whose element at frame \<open>f\<close>, row \<open>y\<close> and column \<open>x\<close> is \<open>g f y x\<close>.\<close>

definition tabulate3 :: "nat \<Rightarrow> nat \<Rightarrow> nat \<Rightarrow> (nat \<Rightarrow> nat \<Rightarrow> nat \<Rightarrow> 'a) \<Rightarrow> 'a list list list" where
  "tabulate3 N H W g = map (\<lambda>f. map (\<lambda>y. map (\<lambda>x. g f y x) [0..<W]) [0..<H]) [0..<N]"

text \<open>A float32 array of a given shape with given elements: what an output movie is.\<close>

definition out_array :: "nat \<times> nat \<times> nat \<Rightarrow> (nat \<Rightarrow> nat \<Rightarrow> nat \<Rightarrow> 'a) \<Rightarrow> 'a ndarray" where
  "out_array shp g =
     (case shp of (N, H, W) \<Rightarrow> \<lparr>shape = shp, dtype = Float32, frames = tabulate3 N H W g\<rparr>)"

text \<open>The write of \<open>set_column\<close> once the values have the length of the time axis.\<close>

definition put_column ::
  "(np_dtype \<Rightarrow> 'a \<Rightarrow> 'a) \<Rightarrow> 'a ndarray \<Rightarrow> nat \<Rightarrow> nat \<Rightarrow> 'a list \<Rightarrow> 'a ndarray" where
  "put_column cast a y x vs =
     a\<lparr>frames := map2 (\<lambda>fr v. fr[y := (fr ! y)[x := cast (dtype a) v]]) (frames a) vs\<rparr>"

text \<open>A sequence of such writes, pixel after pixel.\<close>

fun paint ::
  "(np_dtype \<Rightarrow> 'a \<Rightarrow> 'a) \<Rightarrow> 'a ndarray \<Rightarrow> ((nat \<times> nat) \<times> 'a list) list \<Rightarrow> 'a ndarray" where
  "paint cast a [] = a"
| "paint cast a (((x, y), vs) # rest) = paint cast (put_column cast a y x vs) rest"

text \<open>
  What the loop body computes for one pixel before it writes: the four read-outs of
  \<open>pixel_transform\<close>, each broadcast to the \<open>N\<close> frames of the output, in the order of the
  four assignments of lines 175 to 178.
\<close>

definition pixel_columns ::
  "('a::linordered_field, 'c, 'x, 'e) env \<Rightarrow> 'a \<Rightarrow> 'a list \<Rightarrow> 'a option \<Rightarrow> 'a option \<Rightarrow> nat \<Rightarrow> 'a list \<Rightarrow>
     'e exn + ('a list \<times> 'a list \<times> 'a list \<times> 'a list)" where
  "pixel_columns ev dt periods T_c L N input_vec =
     (case pixel_transform ev dt periods T_c L input_vec of
        Inl e \<Rightarrow> Inl e
      | Inr (phases, ridge_periods, powers, amplitudes) \<Rightarrow>
      (case broadcast_to N phases of
        Inl e \<Rightarrow> Inl e
      | Inr c1 \<Rightarrow>
      (case broadcast_to N ridge_periods of
        Inl e \<Rightarrow> Inl e
      | Inr c2 \<Rightarrow>
      (case broadcast_to N powers of
        Inl e \<Rightarrow> Inl e
      | Inr c3 \<Rightarrow>
      (case broadcast_to N amplitudes of
        Inl e \<Rightarrow> Inl e
      | Inr c4 \<Rightarrow> Inr (c1, c2, c3, c4))))))"

text \<open>The same for the pixel in column \<open>x\<close> and row \<open>y\<close> of a movie.\<close>

definition pixel_result ::
  "('a::linordered_field, 'c, 'x, 'e) env \<Rightarrow> 'a \<Rightarrow> 'a list \<Rightarrow> 'a option \<Rightarrow> 'a option \<Rightarrow> 'a ndarray \<Rightarrow>
     nat \<Rightarrow> nat \<Rightarrow> 'e exn + ('a list \<times> 'a list \<times> 'a list \<times> 'a list)" where
  "pixel_result ev dt periods T_c L mov x y =
     pixel_columns ev dt periods T_c L (fst (shape mov)) (get_column mov y x)"

text \<open>
  The element that a run without exception leaves at frame \<open>f\<close>, row \<open>y\<close>, column \<open>x\<close> of an
  output movie: one of the four read-outs (\<open>sel\<close> selects it) of that pixel at that frame,
  cast to float32.
\<close>

definition value_at ::
  "('a list \<times> 'a list \<times> 'a list \<times> 'a list \<Rightarrow> 'a list) \<Rightarrow>
   ('a::linordered_field, 'c, 'x, 'e) env \<Rightarrow> 'a \<Rightarrow> 'a list \<Rightarrow> 'a option \<Rightarrow> 'a option \<Rightarrow> 'a ndarray \<Rightarrow>
     nat \<Rightarrow> nat \<Rightarrow> nat \<Rightarrow> 'a" where
  "value_at sel ev dt periods T_c L mov f y x =
     astype ev Float32 (sel (projr (pixel_result ev dt periods T_c L mov x y)) ! f)"

text \<open>The local variables of \<^verbatim>\<open>transform_stack\<close> after a loop without exception.\<close>

definition loop_result ::
  "('a::linordered_field, 'c, 'x, 'e) env \<Rightarrow> 'a \<Rightarrow> 'a list \<Rightarrow> 'a option \<Rightarrow> 'a option \<Rightarrow> 'a ndarray \<Rightarrow>
     'a movie_vars" where
  "loop_result ev dt periods T_c L mov =
     \<lparr>movie = mov,
      phase_movie = out_array (shape mov) (value_at fst ev dt periods T_c L mov),
      period_movie = out_array (shape mov) (value_at (\<lambda>c. fst (snd c)) ev dt periods T_c L mov),
      power_movie = out_array (shape mov) (value_at (\<lambda>c. fst (snd (snd c))) ev dt periods T_c L mov),
      amplitude_movie =
        out_array (shape mov) (value_at (\<lambda>c. snd (snd (snd c))) ev dt periods T_c L mov)\<rparr>"

text \<open>The output of the worker that gets the rows \<^verbatim>\<open>[s:e]\<close>, in terms of the whole movie.\<close>

definition slice_out ::
  "('a::linordered_field, 'c, 'x, 'e) env \<Rightarrow> 'a \<Rightarrow> 'a list \<Rightarrow> 'a option \<Rightarrow> 'a option \<Rightarrow> 'a ndarray \<Rightarrow>
     ('a list \<times> 'a list \<times> 'a list \<times> 'a list \<Rightarrow> 'a list) \<Rightarrow> nat \<times> nat \<Rightarrow> 'a ndarray" where
  "slice_out ev dt periods T_c L a sel =
     (\<lambda>(s, e). out_array (fst (shape a), e - s, snd (snd (shape a)))
                 (\<lambda>f y x. value_at sel ev dt periods T_c L a f (s + y) x))"


text \<open>An array has the shape of the movie, float32 elements, and elements that fit the shape.\<close>

definition output_like :: "'a ndarray \<Rightarrow> 'a ndarray \<Rightarrow> bool" where
  "output_like mov a \<longleftrightarrow> shape a = shape mov \<and> dtype a = Float32 \<and> wf_array a"

subsection \<open>A concrete environment and movie\<close>

text \<open>
  Stand-ins for the external routines over the rationals, to run the definitions on: the
  trend is the constant cut-off, the envelope normalization scales by the window, row \<open>k\<close>
  of the spectrum is the signal scaled by period \<open>k\<close>, the ridge is the last row throughout.
\<close>

definition demo_env :: "(rat, rat, unit, unit) env" where
  "demo_env =
     \<lparr>sinc_smooth = (\<lambda>v c dt. Inr (map (\<lambda>_. c) v)),
      normalize_with_envelope = (\<lambda>v l dt. Inr (map (\<lambda>u. u * l) v)),
      compute_spectrum =
        (\<lambda>v dt ps. Inr (map (\<lambda>p. map (\<lambda>u. p * u) v) ps, map (\<lambda>p. map (\<lambda>u. u + p) v) ps)),
      get_maxRidge_ys =
        (\<lambda>m. Inr (map (\<lambda>_. int (length m) - 1) (case m of [] \<Rightarrow> [] | r # _ \<Rightarrow> r), ())),
      power_to_amplitude = (\<lambda>ps pw s dt. Inr (map2 (\<lambda>p w. p + w * dt) ps pw)),
      np_std = (\<lambda>v. 0),
      np_angle = (\<lambda>c. c),
      astype = (\<lambda>t v. v),
      cpu_count = 4,
      rescale = (\<lambda>img s. Inr img)\<rparr>"

text \<open>Two frames of two rows and one column.\<close>

definition demo_movie :: "rat ndarray" where
  "demo_movie = \<lparr>shape = (2, 2, 1), dtype = Float64, frames = [[[1], [2]], [[3], [4]]]\<rparr>"

section \<open>Properties\<close>

subsection \<open>Loops and exceptions\<close>

lemma for_each_error:
  "for_each xs body s = Inl e \<Longrightarrow> \<exists>i s'. i \<in> set xs \<and> body i s' = Inl e"
proof (induction xs arbitrary: s)
  case Nil
  then show ?case by simp
next
  case (Cons i xs)
  show ?case
  proof (cases "body i s")
    case (Inl e')
    with Cons.prems have "body i s = Inl e" by simp
    then show ?thesis by auto
  next
    case (Inr s')
    with Cons.prems have "for_each xs body s' = Inl e" by simp
    from Cons.IH [OF this] show ?thesis by auto
  qed
qed

subsection \<open>The grid of \<open>np_linspace\<close>\<close>

lemma mult_div_self: "c \<noteq> 0 \<Longrightarrow> c * (d / c) = (d::'a::field)"
  by simp

lemma linspace_last_sample:
  fixes start stop :: "'a::linordered_field"
  assumes "1 < n"
  shows "of_nat (n - 1) * ((stop - start) / of_nat (n - 1)) + start = stop"
proof -
  from assms have nz: "(of_nat (n - 1) :: 'a) \<noteq> 0" by simp
  have "of_nat (n - 1) * ((stop - start) / of_nat (n - 1)) = stop - start"
    using nz by (rule mult_div_self)
  then show ?thesis by (simp only: diff_add_cancel)
qed

lemma np_linspace_eq:
  fixes start stop :: "'a::linordered_field"
  assumes "0 \<le> num"
  shows "(np_linspace start stop num :: 'e exn + 'a list) =
           Inr (map (\<lambda>i. of_nat i * ((stop - start) / of_nat (nat num - 1)) + start) [0..<nat num])"
proof (cases "1 < nat num")
  case True
  let ?n = "nat num"
  let ?f = "\<lambda>i. (of_nat i :: 'a) * ((stop - start) / of_nat (?n - 1)) + start"
  have last: "?f (?n - 1) = stop" using True by (rule linspace_last_sample)
  have len: "?n - 1 < length (map ?f [0..<?n])" using True by simp
  have "(map ?f [0..<?n]) ! (?n - 1) = stop"
    using True last by (simp only: nth_map_upt diff_zero add_0 diff_less zero_less_one
        order_less_trans [OF zero_less_one True])
  then have "(map ?f [0..<?n])[?n - 1 := stop] = map ?f [0..<?n]"
    by (metis list_update_id)
  moreover have "0 < ?n - 1" using True by simp
  ultimately show ?thesis
    using True assms unfolding np_linspace_def Let_def by (simp only: if_True if_False not_less [symmetric])  
next
  case False
  then have "nat num = 0 \<or> nat num = 1" by arith
  with assms show ?thesis by (auto simp: np_linspace_def Let_def)
qed



subsection \<open>Arrays as tables of their elements\<close>

lemma wf_array_iff:
  "wf_array a \<longleftrightarrow>
     length (frames a) = fst (shape a) \<and>
     (\<forall>f < fst (shape a). length (frames a ! f) = fst (snd (shape a)) \<and>
        (\<forall>y < fst (snd (shape a)). length (frames a ! f ! y) = snd (snd (shape a))))"
  by (cases "shape a") (auto simp: wf_array_def list_all_length)

lemma list3_ext:
  assumes "length A = N" "length B = N"
    and "\<And>f. f < N \<Longrightarrow> length (A ! f) = H \<and> length (B ! f) = H"
    and "\<And>f y. f < N \<Longrightarrow> y < H \<Longrightarrow> length (A ! f ! y) = W \<and> length (B ! f ! y) = W"
    and "\<And>f y x. f < N \<Longrightarrow> y < H \<Longrightarrow> x < W \<Longrightarrow> A ! f ! y ! x = B ! f ! y ! x"
  shows "A = B"
proof (rule nth_equalityI)
  show "length A = length B" using assms by simp
next
  fix f assume "f < length A"
  then have f: "f < N" using assms by simp
  show "A ! f = B ! f"
  proof (rule nth_equalityI)
    show "length (A ! f) = length (B ! f)" using assms(3) [OF f] by simp
  next
    fix y assume "y < length (A ! f)"
    then have y: "y < H" using assms(3) [OF f] by simp
    show "A ! f ! y = B ! f ! y"
    proof (rule nth_equalityI)
      show "length (A ! f ! y) = length (B ! f ! y)" using assms(4) [OF f y] by simp
    next
      fix x assume "x < length (A ! f ! y)"
      then have "x < W" using assms(4) [OF f y] by simp
      with f y show "A ! f ! y ! x = B ! f ! y ! x" by (rule assms(5))
    qed
  qed
qed

lemma tabulate3_nth:
  "f < N \<Longrightarrow> y < H \<Longrightarrow> x < W \<Longrightarrow> tabulate3 N H W g ! f ! y ! x = g f y x"
  by (simp add: tabulate3_def)

lemma tabulate3_length:
  "length (tabulate3 N H W g) = N"
  "f < N \<Longrightarrow> length (tabulate3 N H W g ! f) = H"
  "f < N \<Longrightarrow> y < H \<Longrightarrow> length (tabulate3 N H W g ! f ! y) = W"
  by (simp_all add: tabulate3_def)

lemma tabulate3_cong:
  "(\<And>f y x. f < N \<Longrightarrow> y < H \<Longrightarrow> x < W \<Longrightarrow> g f y x = g' f y x) \<Longrightarrow>
   tabulate3 N H W g = tabulate3 N H W g'"
  by (simp add: tabulate3_def)

lemma wf_frames_tabulate:
  assumes "wf_array a" and "shape a = (N, H, W)"
  shows "frames a = tabulate3 N H W (\<lambda>f y x. frames a ! f ! y ! x)"
proof (rule list3_ext [where N = N and H = H and W = W])
  show "length (frames a) = N" using assms by (simp add: wf_array_iff)
  show "length (tabulate3 N H W (\<lambda>f y x. frames a ! f ! y ! x)) = N"
    by (rule tabulate3_length)
next
  fix f assume "f < N"
  then show "length (frames a ! f) = H \<and> length (tabulate3 N H W (\<lambda>f y x. frames a ! f ! y ! x) ! f) = H"
    using assms by (simp add: wf_array_iff tabulate3_length)
next
  fix f y assume "f < N" "y < H"
  then show "length (frames a ! f ! y) = W \<and>
    length (tabulate3 N H W (\<lambda>f y x. frames a ! f ! y ! x) ! f ! y) = W"
    using assms by (simp add: wf_array_iff tabulate3_length)
next
  fix f y x assume "f < N" "y < H" "x < W"
  then show "frames a ! f ! y ! x = tabulate3 N H W (\<lambda>f y x. frames a ! f ! y ! x) ! f ! y ! x"
    by (simp add: tabulate3_nth)
qed

lemma put_column_shape [simp]:
  "shape (put_column cast a y x vs) = shape a" "dtype (put_column cast a y x vs) = dtype a"
  by (simp_all add: put_column_def)

lemma put_column_frame:
  assumes "length (frames a) = N" "length vs = N" "f < N"
  shows "frames (put_column cast a y x vs) ! f =
           (frames a ! f)[y := (frames a ! f ! y)[x := cast (dtype a) (vs ! f)]]"
  using assms by (simp add: put_column_def)

lemma put_column_wf:
  assumes "wf_array a" "length vs = fst (shape a)"
  shows "wf_array (put_column cast a y x vs)"
proof -
  obtain N H W where s: "shape a = (N, H, W)" by (cases "shape a") auto
  from assms s have len: "length (frames a) = N" "length vs = N" by (simp_all add: wf_array_iff)
  show ?thesis
    unfolding wf_array_iff [of "put_column cast a y x vs"]
  proof (intro conjI allI impI)
    show "length (frames (put_column cast a y x vs)) = fst (shape (put_column cast a y x vs))"
      using len s by (simp add: put_column_def)
  next
    fix f assume "f < fst (shape (put_column cast a y x vs))"
    then have f: "f < N" using s by simp
    show "length (frames (put_column cast a y x vs) ! f) = fst (snd (shape (put_column cast a y x vs)))"
      using assms(1) s f by (simp add: put_column_frame [OF len f] wf_array_iff)
    fix y' assume "y' < fst (snd (shape (put_column cast a y x vs)))"
    then have y': "y' < H" using s by simp
    show "length (frames (put_column cast a y x vs) ! f ! y') = snd (snd (shape (put_column cast a y x vs)))"
      using assms(1) s f y'
      by (cases "y' = y") (simp_all add: put_column_frame [OF len f] wf_array_iff)
  qed
qed

lemma put_column_nth:
  assumes "wf_array a" "shape a = (N, H, W)" "length vs = N" "f < N" "y' < H" "x' < W"
  shows "frames (put_column cast a y x vs) ! f ! y' ! x' =
           (if y' = y \<and> x' = x then cast (dtype a) (vs ! f) else frames a ! f ! y' ! x')"
proof -
  from assms have len: "length (frames a) = N" by (simp add: wf_array_iff)
  from assms have lf: "length (frames a ! f) = H" by (simp add: wf_array_iff)
  from assms have ly: "length (frames a ! f ! y') = W" by (simp add: wf_array_iff)
  have fr: "frames (put_column cast a y x vs) ! f =
           (frames a ! f)[y := (frames a ! f ! y)[x := cast (dtype a) (vs ! f)]]"
    using len assms(3) assms(4) by (rule put_column_frame)
  show ?thesis
  proof (cases "y' = y")
    case True
    with lf assms(5) have "frames (put_column cast a y x vs) ! f ! y' =
        (frames a ! f ! y)[x := cast (dtype a) (vs ! f)]"
      by (simp add: fr)
    with True ly assms(6) show ?thesis by (simp add: nth_list_update)
  next
    case False
    then have "frames (put_column cast a y x vs) ! f ! y' = frames a ! f ! y'"
      by (simp add: fr)
    with False show ?thesis by simp
  qed
qed

subsection \<open>The loop over the pixels, as a sequence of column writes\<close>

lemma broadcast_to_length: "broadcast_to N vals = Inr vs \<Longrightarrow> length vs = N"
  by (auto simp: broadcast_to_def split: if_splits)

lemma pixel_columns_length:
  assumes "pixel_columns ev dt periods T_c L N v = Inr (c1, c2, c3, c4)"
  shows "length c1 = N" "length c2 = N" "length c3 = N" "length c4 = N"
  using assms
  by (auto simp: pixel_columns_def split: sum.splits prod.splits dest: broadcast_to_length)

lemma set_column_put:
  "set_column cast a y x vals =
     (case broadcast_to (fst (shape a)) vals of
        Inl e \<Rightarrow> Inl e
      | Inr vs \<Rightarrow> Inr (put_column cast a y x vs))"
  by (simp add: set_column_def put_column_def split: sum.splits)

lemma transform_pixel_columns:
  assumes "fst (shape (phase_movie st)) = N" "fst (shape (period_movie st)) = N"
    "fst (shape (power_movie st)) = N" "fst (shape (amplitude_movie st)) = N"
  shows "transform_pixel ev dt periods T_c L x y st =
     (case pixel_columns ev dt periods T_c L N (get_column (movie st) y x) of
        Inl e \<Rightarrow> Inl e
      | Inr (c1, c2, c3, c4) \<Rightarrow>
          Inr (st\<lparr>phase_movie := put_column (astype ev) (phase_movie st) y x c1,
                  period_movie := put_column (astype ev) (period_movie st) y x c2,
                  power_movie := put_column (astype ev) (power_movie st) y x c3,
                  amplitude_movie := put_column (astype ev) (amplitude_movie st) y x c4\<rparr>))"
  using assms
  by (simp add: transform_pixel_def pixel_columns_def set_column_put Let_def
      split: sum.splits prod.splits)

lemma for_each_append:
  "for_each (xs @ ys) body s =
     (case for_each xs body s of Inl e \<Rightarrow> Inl e | Inr s' \<Rightarrow> for_each ys body s')"
  by (induction xs arbitrary: s) (simp_all split: sum.splits)

lemma for_each_map: "for_each (map f xs) body s = for_each xs (\<lambda>i. body (f i)) s"
  by (induction xs arbitrary: s) (simp_all split: sum.splits)

lemma for_each_nested:
  "for_each xs (\<lambda>x. for_each ys (body x)) s =
     for_each (List.product xs ys) (\<lambda>(x, y). body x y) s"
  by (induction xs arbitrary: s) (simp_all add: for_each_append for_each_map split: sum.splits)

lemma sequence_map_Inr:
  "(\<And>p. p \<in> set ps \<Longrightarrow> \<exists>c. f p = Inr c) \<Longrightarrow>
   sequence (map f ps) = Inr (map (\<lambda>p. projr (f p)) ps)"
proof (induction ps)
  case Nil
  then show ?case by simp
next
  case (Cons p ps)
  from Cons.prems [of p] obtain c where c: "f p = Inr c" by auto
  have "sequence (map f ps) = Inr (map (\<lambda>p. projr (f p)) ps)"
    by (rule Cons.IH) (simp add: Cons.prems)
  with c show ?case by simp
qed

lemma sequence_map_InrD:
  "sequence (map f ps) = Inr cs \<Longrightarrow>
   (\<forall>p \<in> set ps. \<exists>c. f p = Inr c) \<and> cs = map (\<lambda>p. projr (f p)) ps"
proof (induction ps arbitrary: cs)
  case Nil
  then show ?case by simp
next
  case (Cons p ps)
  from Cons.prems obtain c cs' where c: "f p = Inr c" and s: "sequence (map f ps) = Inr cs'"
    and cs: "cs = c # cs'"
    by (auto split: sum.splits)
  from Cons.IH [OF s] c cs show ?case by simp
qed

lemma paint_shape [simp]:
  "shape (paint cast a pvs) = shape a" "dtype (paint cast a pvs) = dtype a"
  by (induction cast a pvs rule: paint.induct) simp_all

lemma pixel_loop_eq:
  assumes "fst (shape (phase_movie st)) = N" "fst (shape (period_movie st)) = N"
    "fst (shape (power_movie st)) = N" "fst (shape (amplitude_movie st)) = N"
  shows "for_each ps (\<lambda>(x, y). transform_pixel ev dt periods T_c L x y) st =
     (case sequence (map (\<lambda>(x, y). pixel_columns ev dt periods T_c L N (get_column (movie st) y x)) ps) of
        Inl e \<Rightarrow> Inl e
      | Inr cs \<Rightarrow>
          Inr (st\<lparr>phase_movie := paint (astype ev) (phase_movie st) (zip ps (map fst cs)),
                  period_movie := paint (astype ev) (period_movie st) (zip ps (map (\<lambda>c. fst (snd c)) cs)),
                  power_movie := paint (astype ev) (power_movie st) (zip ps (map (\<lambda>c. fst (snd (snd c))) cs)),
                  amplitude_movie := paint (astype ev) (amplitude_movie st) (zip ps (map (\<lambda>c. snd (snd (snd c))) cs))\<rparr>))"
  using assms
proof (induction ps arbitrary: st)
  case Nil
  then show ?case by simp
next
  case (Cons p ps)
  obtain x y where p: "p = (x, y)" by (cases p)
  let ?cols = "pixel_columns ev dt periods T_c L N (get_column (movie st) y x)"
  have step: "transform_pixel ev dt periods T_c L x y st =
     (case ?cols of
        Inl e \<Rightarrow> Inl e
      | Inr (c1, c2, c3, c4) \<Rightarrow>
          Inr (st\<lparr>phase_movie := put_column (astype ev) (phase_movie st) y x c1,
                  period_movie := put_column (astype ev) (period_movie st) y x c2,
                  power_movie := put_column (astype ev) (power_movie st) y x c3,
                  amplitude_movie := put_column (astype ev) (amplitude_movie st) y x c4\<rparr>))"
    using Cons.prems by (rule transform_pixel_columns)
  show ?case
  proof (cases ?cols)
    case (Inl e)
    with step p show ?thesis by simp
  next
    case (Inr c)
    obtain c1 c2 c3 c4 where c: "c = (c1, c2, c3, c4)" by (cases c) auto
    define st' where "st' = st\<lparr>phase_movie := put_column (astype ev) (phase_movie st) y x c1,
                  period_movie := put_column (astype ev) (period_movie st) y x c2,
                  power_movie := put_column (astype ev) (power_movie st) y x c3,
                  amplitude_movie := put_column (astype ev) (amplitude_movie st) y x c4\<rparr>"
    from step Inr c have s1: "transform_pixel ev dt periods T_c L x y st = Inr st'"
      by (simp add: st'_def)
    have sh: "fst (shape (phase_movie st')) = N" "fst (shape (period_movie st')) = N"
      "fst (shape (power_movie st')) = N" "fst (shape (amplitude_movie st')) = N"
      using Cons.prems by (simp_all add: st'_def)
    have mv: "movie st' = movie st" by (simp add: st'_def)
    note ih = Cons.IH [OF sh, unfolded mv]
    show ?thesis
    proof (cases "sequence (map (\<lambda>(x, y). pixel_columns ev dt periods T_c L N (get_column (movie st) y x)) ps)")
      case (Inl e)
      with ih s1 p Inr show ?thesis by simp
    next
      case r: (Inr cs)
      with ih s1 p Inr c show ?thesis by (simp add: st'_def)
    qed
  qed
qed

lemma paint_nth:
  assumes "wf_array a" "shape a = (N, H, W)"
    and "\<And>p. p \<in> set ps \<Longrightarrow> length (C p) = N"
  shows "wf_array (paint cast a (map (\<lambda>p. (p, C p)) ps)) \<and>
    (\<forall>f y x. f < N \<longrightarrow> y < H \<longrightarrow> x < W \<longrightarrow>
       frames (paint cast a (map (\<lambda>p. (p, C p)) ps)) ! f ! y ! x =
         (if (x, y) \<in> set ps then cast (dtype a) (C (x, y) ! f) else frames a ! f ! y ! x))"
  using assms
proof (induction ps arbitrary: a)
  case Nil
  then show ?case by simp
next
  case (Cons p ps)
  obtain x0 y0 where p: "p = (x0, y0)" by (cases p)
  let ?a = "put_column cast a y0 x0 (C p)"
  have len: "length (C p) = N" by (rule Cons.prems(3)) simp
  have wf': "wf_array ?a" using Cons.prems(1) len Cons.prems(2) by (simp add: put_column_wf)
  have sh': "shape ?a = (N, H, W)" using Cons.prems(2) by simp
  have ih: "wf_array (paint cast ?a (map (\<lambda>p. (p, C p)) ps)) \<and>
    (\<forall>f y x. f < N \<longrightarrow> y < H \<longrightarrow> x < W \<longrightarrow>
       frames (paint cast ?a (map (\<lambda>p. (p, C p)) ps)) ! f ! y ! x =
         (if (x, y) \<in> set ps then cast (dtype ?a) (C (x, y) ! f) else frames ?a ! f ! y ! x))"
    using wf' sh' by (rule Cons.IH) (simp add: Cons.prems(3))
  have nth: "frames ?a ! f ! y ! x =
      (if y = y0 \<and> x = x0 then cast (dtype a) (C p ! f) else frames a ! f ! y ! x)"
    if "f < N" "y < H" "x < W" for f y x
    using Cons.prems(1) Cons.prems(2) len that by (rule put_column_nth)
  show ?case
    using ih nth by (auto simp: p)
qed

subsection \<open>What the loop leaves in the output arrays\<close>

lemma np_zeros_wf: "wf_array (np_zeros shp dt)"
  by (cases shp) (auto simp: wf_array_iff np_zeros_def)

lemma np_zeros_shape [simp]: "shape (np_zeros shp dt) = shp" "dtype (np_zeros shp dt) = dt"
  by (cases shp; simp add: np_zeros_def)+

lemma out_array_wf: "wf_array (out_array shp g)"
  by (cases shp) (auto simp: wf_array_iff out_array_def tabulate3_length)

lemma out_array_shape [simp]: "shape (out_array shp g) = shp" "dtype (out_array shp g) = Float32"
  by (cases shp; simp add: out_array_def)+

lemma array_eqI:
  fixes a b :: "'a ndarray"
  assumes "wf_array a" "wf_array b" "shape a = (N, H, W)" "shape b = (N, H, W)" "dtype a = dtype b"
    and "\<And>f y x. f < N \<Longrightarrow> y < H \<Longrightarrow> x < W \<Longrightarrow> frames a ! f ! y ! x = frames b ! f ! y ! x"
  shows "a = b"
proof -
  have "frames a = frames b"
  proof (rule list3_ext [where N = N and H = H and W = W])
    show "length (frames a) = N" "length (frames b) = N"
      using assms by (simp_all add: wf_array_iff)
  next
    fix f assume "f < N"
    then show "length (frames a ! f) = H \<and> length (frames b ! f) = H"
      using assms by (simp add: wf_array_iff)
  next
    fix f y assume "f < N" "y < H"
    then show "length (frames a ! f ! y) = W \<and> length (frames b ! f ! y) = W"
      using assms by (simp add: wf_array_iff)
  next
    fix f y x assume "f < N" "y < H" "x < W"
    then show "frames a ! f ! y ! x = frames b ! f ! y ! x" by (rule assms(6))
  qed
  with assms show ?thesis by simp
qed

lemma paint_zeros:
  fixes C :: "nat \<times> nat \<Rightarrow> ('a::zero) list"
  assumes "\<And>x y. x < W \<Longrightarrow> y < H \<Longrightarrow> length (C (x, y)) = N"
  shows "paint cast (np_zeros (N, H, W) Float32)
           (map (\<lambda>p. (p, C p)) (List.product [0..<W] [0..<H])) =
         out_array (N, H, W) (\<lambda>f y x. cast Float32 (C (x, y) ! f))"
proof -
  let ?ps = "List.product [0..<W] [0..<H]"
  let ?z = "np_zeros (N, H, W) Float32 :: 'a ndarray"
  have len: "length (C p) = N" if "p \<in> set ?ps" for p
  proof -
    obtain x y where p: "p = (x, y)" by (cases p)
    with that have "x < W" "y < H" by simp_all
    then show ?thesis unfolding p by (rule assms)
  qed
  have wfz: "wf_array ?z" by (rule np_zeros_wf)
  have shz: "shape ?z = (N, H, W)" by simp
  from paint_nth [of ?z N H W ?ps C cast, OF wfz shz len]
  have wf: "wf_array (paint cast ?z (map (\<lambda>p. (p, C p)) ?ps))"
    and nth: "\<And>f y x. f < N \<Longrightarrow> y < H \<Longrightarrow> x < W \<Longrightarrow>
       frames (paint cast ?z (map (\<lambda>p. (p, C p)) ?ps)) ! f ! y ! x =
         (if (x, y) \<in> set ?ps then cast (dtype ?z) (C (x, y) ! f) else frames ?z ! f ! y ! x)"
    by blast+
  show ?thesis
  proof (rule array_eqI [where N = N and H = H and W = W])
    show "wf_array (paint cast ?z (map (\<lambda>p. (p, C p)) ?ps))" by (rule wf)
    show "wf_array (out_array (N, H, W) (\<lambda>f y x. cast Float32 (C (x, y) ! f)))"
      by (rule out_array_wf)
    show "shape (paint cast ?z (map (\<lambda>p. (p, C p)) ?ps)) = (N, H, W)" by simp
    show "shape (out_array (N, H, W) (\<lambda>f y x. cast Float32 (C (x, y) ! f))) = (N, H, W)" by simp
    show "dtype (paint cast ?z (map (\<lambda>p. (p, C p)) ?ps)) =
          dtype (out_array (N, H, W) (\<lambda>f y x. cast Float32 (C (x, y) ! f)))" by simp
  next
    fix f y x assume b: "f < N" "y < H" "x < W"
    then have "(x, y) \<in> set ?ps" by simp
    with nth [OF b] b show "frames (paint cast ?z (map (\<lambda>p. (p, C p)) ?ps)) ! f ! y ! x =
      frames (out_array (N, H, W) (\<lambda>f y x. cast Float32 (C (x, y) ! f))) ! f ! y ! x"
      by (simp add: out_array_def tabulate3_nth)
  qed
qed

lemma zip_map_same: "zip ps (map g ps) = map (\<lambda>p. (p, g p)) ps"
  by (induction ps) simp_all

lemma pixel_result_length:
  assumes "pixel_result ev dt periods T_c L mov x y = Inr c"
  shows "length (fst c) = fst (shape mov)" "length (fst (snd c)) = fst (shape mov)"
    "length (fst (snd (snd c))) = fst (shape mov)" "length (snd (snd (snd c))) = fst (shape mov)"
proof -
  obtain c1 c2 c3 c4 where c: "c = (c1, c2, c3, c4)" by (cases c) auto
  from assms [unfolded pixel_result_def c] pixel_columns_length [of ev dt periods T_c L "fst (shape mov)" "get_column mov y x" c1 c2 c3 c4]
  show "length (fst c) = fst (shape mov)" "length (fst (snd c)) = fst (shape mov)"
    "length (fst (snd (snd c))) = fst (shape mov)" "length (snd (snd (snd c))) = fst (shape mov)"
    by (simp_all add: c)
qed

lemma transform_loop_eq:
  assumes shp: "shape mov = (N, H, W)"
  shows "transform_loop ev dt periods T_c L mov =
     (case sequence (map (\<lambda>(x, y). pixel_result ev dt periods T_c L mov x y)
                      (List.product [0..<W] [0..<H])) of
        Inl e \<Rightarrow> Inl e
      | Inr cs \<Rightarrow> Inr (loop_result ev dt periods T_c L mov))"
proof -
  let ?ps = "List.product [0..<W] [0..<H]"
  let ?f = "\<lambda>(x, y). pixel_result ev dt periods T_c L mov x y"
  let ?st = "\<lparr>movie = mov,
                phase_movie = np_zeros (shape mov) Float32,
                period_movie = np_zeros (shape mov) Float32,
                power_movie = np_zeros (shape mov) Float32,
                amplitude_movie = np_zeros (shape mov) Float32\<rparr>"
  have f: "?f = (\<lambda>(x, y). pixel_columns ev dt periods T_c L N (get_column (movie ?st) y x))"
    using shp by (simp add: pixel_result_def fun_eq_iff)
  have loop: "transform_loop ev dt periods T_c L mov =
      for_each ?ps (\<lambda>(x, y). transform_pixel ev dt periods T_c L x y) ?st"
    using shp by (simp add: transform_loop_def Let_def for_each_nested)
  have eq: "for_each ?ps (\<lambda>(x, y). transform_pixel ev dt periods T_c L x y) ?st =
     (case sequence (map ?f ?ps) of
        Inl e \<Rightarrow> Inl e
      | Inr cs \<Rightarrow>
          Inr (?st\<lparr>phase_movie := paint (astype ev) (phase_movie ?st) (zip ?ps (map fst cs)),
                  period_movie := paint (astype ev) (period_movie ?st) (zip ?ps (map (\<lambda>c. fst (snd c)) cs)),
                  power_movie := paint (astype ev) (power_movie ?st) (zip ?ps (map (\<lambda>c. fst (snd (snd c))) cs)),
                  amplitude_movie := paint (astype ev) (amplitude_movie ?st) (zip ?ps (map (\<lambda>c. snd (snd (snd c))) cs))\<rparr>))"
    unfolding f by (rule pixel_loop_eq [where N = N]) (simp_all add: shp)
  show ?thesis
  proof (cases "sequence (map ?f ?ps)")
    case (Inl e)
    with loop eq show ?thesis by simp
  next
    case (Inr cs)
    from sequence_map_InrD [OF Inr]
    have ok: "\<And>p. p \<in> set ?ps \<Longrightarrow> \<exists>c. ?f p = Inr c"
      and cs: "cs = map (\<lambda>p. projr (?f p)) ?ps" by blast+
    have len: "length (fst (projr (?f (x, y)))) = N"
        "length (fst (snd (projr (?f (x, y))))) = N"
        "length (fst (snd (snd (projr (?f (x, y)))))) = N"
        "length (snd (snd (snd (projr (?f (x, y)))))) = N"
      if "x < W" "y < H" for x y
    proof -
      from that have "(x, y) \<in> set ?ps" by simp
      from ok [OF this] obtain c where c: "pixel_result ev dt periods T_c L mov x y = Inr c"
        by auto
      from pixel_result_length [OF c] shp c
      show "length (fst (projr (?f (x, y)))) = N"
        "length (fst (snd (projr (?f (x, y))))) = N"
        "length (fst (snd (snd (projr (?f (x, y)))))) = N"
        "length (snd (snd (snd (projr (?f (x, y)))))) = N"
        by simp_all
    qed
    have p1: "paint (astype ev) (np_zeros (N, H, W) Float32) (zip ?ps (map fst cs)) =
        out_array (N, H, W) (\<lambda>f y x. astype ev Float32 (fst (projr (?f (x, y))) ! f))"
      unfolding cs map_map comp_def zip_map_same
      by (rule paint_zeros [where C = "\<lambda>p. fst (projr (?f p))"]) (rule len)
    have p2: "paint (astype ev) (np_zeros (N, H, W) Float32) (zip ?ps (map (\<lambda>c. fst (snd c)) cs)) =
        out_array (N, H, W) (\<lambda>f y x. astype ev Float32 (fst (snd (projr (?f (x, y)))) ! f))"
      unfolding cs map_map comp_def zip_map_same
      by (rule paint_zeros [where C = "\<lambda>p. fst (snd (projr (?f p)))"]) (rule len)
    have p3: "paint (astype ev) (np_zeros (N, H, W) Float32) (zip ?ps (map (\<lambda>c. fst (snd (snd c))) cs)) =
        out_array (N, H, W) (\<lambda>f y x. astype ev Float32 (fst (snd (snd (projr (?f (x, y))))) ! f))"
      unfolding cs map_map comp_def zip_map_same
      by (rule paint_zeros [where C = "\<lambda>p. fst (snd (snd (projr (?f p))))"]) (rule len)
    have p4: "paint (astype ev) (np_zeros (N, H, W) Float32) (zip ?ps (map (\<lambda>c. snd (snd (snd c))) cs)) =
        out_array (N, H, W) (\<lambda>f y x. astype ev Float32 (snd (snd (snd (projr (?f (x, y))))) ! f))"
      unfolding cs map_map comp_def zip_map_same
      by (rule paint_zeros [where C = "\<lambda>p. snd (snd (snd (projr (?f p))))"]) (rule len)
    from loop eq Inr show ?thesis
      by (simp add: shp p1 p2 p3 p4 loop_result_def value_at_def [abs_def])
  qed
qed

lemma sequence_map_Inr_iff:
  "(\<exists>cs. sequence (map f ps) = Inr cs) \<longleftrightarrow> (\<forall>p \<in> set ps. \<exists>c. f p = Inr c)"
  using sequence_map_Inr [of ps f] sequence_map_InrD [of f ps] by blast

lemma transform_loop_Inr_iff:
  assumes shp: "shape mov = (N, H, W)"
  shows "transform_loop ev dt periods T_c L mov = Inr st \<longleftrightarrow>
     (\<forall>x < W. \<forall>y < H. \<exists>c. pixel_result ev dt periods T_c L mov x y = Inr c) \<and>
     st = loop_result ev dt periods T_c L mov"
proof -
  let ?ps = "List.product [0..<W] [0..<H]"
  let ?f = "\<lambda>(x, y). pixel_result ev dt periods T_c L mov x y"
  have "(\<forall>p \<in> set ?ps. \<exists>c. ?f p = Inr c) \<longleftrightarrow>
     (\<forall>x < W. \<forall>y < H. \<exists>c. pixel_result ev dt periods T_c L mov x y = Inr c)"
    by auto
  with sequence_map_Inr_iff [of ?f ?ps]
  have "(\<exists>cs. sequence (map ?f ?ps) = Inr cs) \<longleftrightarrow>
     (\<forall>x < W. \<forall>y < H. \<exists>c. pixel_result ev dt periods T_c L mov x y = Inr c)"
    by simp
  then show ?thesis
    unfolding transform_loop_eq [OF shp]
    by (cases "sequence (map ?f ?ps)") auto
qed

subsection \<open>Division points and section sizes\<close>

lemma div_slices_bounds:
  "(s, e) \<in> set (div_slices st ks) \<Longrightarrow> st \<le> s \<and> s \<le> e \<and> e \<le> st + sum_list ks"
proof (induction ks arbitrary: st)
  case Nil
  then show ?case by simp
next
  case (Cons k ks)
  from Cons.prems have "(s, e) = (st, st + k) \<or> (s, e) \<in> set (div_slices (st + k) ks)" by simp
  then show ?case
  proof
    assume "(s, e) = (st, st + k)"
    then show ?thesis by simp
  next
    assume "(s, e) \<in> set (div_slices (st + k) ks)"
    from Cons.IH [OF this] show ?thesis by simp
  qed
qed

lemma div_slices_length [simp]: "length (div_slices st ks) = length ks"
  by (induction ks arbitrary: st) simp_all

lemma div_slices_sizes: "map (\<lambda>(s, e). e - s) (div_slices st ks) = ks"
  by (induction ks arbitrary: st) simp_all

lemma div_slices_tile:
  "concat (map (\<lambda>(s, e). [s..<e]) (div_slices st ks)) = [st..<st + sum_list ks]"
proof (induction ks arbitrary: st)
  case Nil
  then show ?case by simp
next
  case (Cons k ks)
  have "[st..<st + k] @ [st + k..<st + k + sum_list ks] = [st..<st + k + sum_list ks]"
    by (metis le_add1 upt_add_eq_append)
  with Cons.IH [of "st + k"] show ?case by (simp add: add.assoc)
qed

lemma div_slices_cover:
  assumes "y < sum_list ks"
  shows "\<exists>s e. (s, e) \<in> set (div_slices 0 ks) \<and> s \<le> y \<and> y < e"
proof -
  from assms have "y \<in> set [0..<0 + sum_list ks]" by simp
  then have "y \<in> set (concat (map (\<lambda>(s, e). [s..<e]) (div_slices 0 ks)))"
    by (simp only: div_slices_tile)
  then show ?thesis by auto
qed

lemma section_sizes_length: "0 < n \<Longrightarrow> length (section_sizes H n) = n"
  by (simp add: section_sizes_def)

lemma section_sizes_sum: "0 < n \<Longrightarrow> sum_list (section_sizes H n) = H"
proof -
  assume n: "0 < n"
  have "sum_list (section_sizes H n) =
      (H mod n) * (H div n + 1) + (n - H mod n) * (H div n)"
    by (simp add: section_sizes_def sum_list_replicate)
  also have "\<dots> = H mod n + ((H mod n) + (n - H mod n)) * (H div n)"
    by (simp add: algebra_simps)
  also have "(H mod n) + (n - H mod n) = n" using n by simp
  also have "H mod n + n * (H div n) = H" by simp
  finally show ?thesis .
qed


lemma upt_shift: "[k..<k + m] = map (\<lambda>y. k + y) [0..<m]"
proof -
  have "map (\<lambda>y. y + k) [0..<m] = [k..<m + k]" by (rule map_add_upt)
  moreover have "(\<lambda>y. y + k) = (\<lambda>y. k + y)" by (simp add: fun_eq_iff)
  moreover have "m + k = k + m" by simp
  ultimately show ?thesis by simp
qed

lemma concat_slices_rows:
  "concat (map (\<lambda>(s, e). map (\<lambda>y. r (s + y)) [0..<e - s]) (div_slices st ks)) =
     map (\<lambda>y. r (st + y)) [0..<sum_list ks]"
proof (induction ks arbitrary: st)
  case Nil
  then show ?case by simp
next
  case (Cons k ks)
  have "[0..<k + sum_list ks] = [0..<k] @ [k..<k + sum_list ks]"
    by (rule upt_add_eq_append) simp
  also have "[k..<k + sum_list ks] = map (\<lambda>y. k + y) [0..<sum_list ks]"
    by (rule upt_shift)
  finally have "map (\<lambda>y. r (st + y)) [0..<k + sum_list ks] =
      map (\<lambda>y. r (st + y)) [0..<k] @ map (\<lambda>y. r (st + (k + y))) [0..<sum_list ks]"
    by (simp only: map_append map_map comp_def)
  moreover have "(\<lambda>y. r (st + (k + y))) = (\<lambda>y. r (st + k + y))"
    by (simp only: add.assoc)
  moreover note Cons.IH [of "st + k"]
  ultimately show ?case by (simp del: upt_Suc)
qed


lemma foldl_promote_same:
  "set ts \<subseteq> {d} \<Longrightarrow> foldl promote_types d ts = d"
  by (induction ts) (simp_all add: promote_types_def)

subsection \<open>Slices of a movie and the concatenation of outputs\<close>

lemma wf_array_frameD:
  assumes "wf_array a" "shape a = (N, H, W)" "fr \<in> set (frames a)"
  shows "length fr = H"
  using assms by (auto simp: wf_array_def list_all_iff)

lemma slice_rows_shape:
  assumes "shape a = (N, H, W)" "s \<le> e" "e \<le> H"
  shows "shape (slice_rows a s e) = (N, e - s, W)"
  using assms by (simp add: slice_rows_def min_def)

lemma slice_rows_dtype [simp]: "dtype (slice_rows a s e) = dtype a"
  by (cases "shape a") (simp add: slice_rows_def)

lemma slice_rows_frames:
  "frames (slice_rows a s e) = map (\<lambda>fr. take (e - s) (drop s fr)) (frames a)"
  by (cases "shape a") (simp add: slice_rows_def)

lemma slice_rows_column:
  assumes wf: "wf_array a" and shp: "shape a = (N, H, W)"
    and "s \<le> e" "e \<le> H" "y < e - s"
  shows "get_column (slice_rows a s e) y x = get_column a (s + y) x"
proof -
  have "take (e - s) (drop s fr) ! y ! x = fr ! (s + y) ! x" if "fr \<in> set (frames a)" for fr
  proof -
    from wf shp that have "length fr = H" by (rule wf_array_frameD)
    with assms show ?thesis by simp
  qed
  then show ?thesis by (simp add: get_column_def slice_rows_frames)
qed

lemma pixel_result_slice:
  assumes "wf_array a" "shape a = (N, H, W)" "s \<le> e" "e \<le> H" "y < e - s"
  shows "pixel_result ev dt periods T_c L (slice_rows a s e) x y =
         pixel_result ev dt periods T_c L a x (s + y)"
  using slice_rows_column [OF assms] slice_rows_shape [OF assms(2,3,4)] assms(2)
  by (simp add: pixel_result_def)

lemma np_concatenate_eq:
  assumes "arrays \<noteq> []"
    and "\<And>b. b \<in> set arrays \<Longrightarrow> fst (shape b) = N \<and> snd (snd (shape b)) = W \<and> dtype b = d"
  shows "np_concatenate arrays =
     Inr \<lparr>shape = (N, sum_list (map (\<lambda>b. fst (snd (shape b))) arrays), W),
          dtype = d,
          frames = map (\<lambda>f. concat (map (\<lambda>b. frames b ! f) arrays)) [0..<N]\<rparr>"
proof -
  from assms(1) obtain a rest where ar: "arrays = a # rest" by (cases arrays) auto
  obtain N' H' W' where sa: "shape a = (N', H', W')" by (cases "shape a") auto
  from assms(2) [of a] ar sa have a: "N' = N" "W' = W" "dtype a = d" by simp_all
  have rest: "list_all (\<lambda>b. fst (shape b) = N \<and> snd (snd (shape b)) = W) rest"
    using assms(2) ar by (simp add: list_all_iff)
  have "set (map dtype rest) \<subseteq> {d}" using assms(2) ar by auto
  then have dt: "foldl promote_types d (map dtype rest) = d" by (rule foldl_promote_same)
  show ?thesis
    using rest dt by (simp add: np_concatenate_def ar sa a)
qed

lemma out_array_frame:
  "f < N \<Longrightarrow> frames (out_array (N, H, W) g) ! f = map (\<lambda>y. map (\<lambda>x. g f y x) [0..<W]) [0..<H]"
  by (simp add: out_array_def tabulate3_def)

lemma np_concatenate_out:
  assumes "ks \<noteq> []"
  shows "np_concatenate
           (map (\<lambda>(s, e). out_array (N, e - s, W) (\<lambda>f y x. G f (s + y) x)) (div_slices 0 ks)) =
         Inr (out_array (N, sum_list ks, W) G)"
proof -
  let ?F = "\<lambda>(s, e). out_array (N, e - s, W) (\<lambda>f y x. G f (s + y) x)"
  let ?arrays = "map ?F (div_slices 0 ks)"
  have ne: "?arrays \<noteq> []" using assms by (cases ks) simp_all
  have sh: "fst (shape b) = N \<and> snd (snd (shape b)) = W \<and> dtype b = Float32"
    if "b \<in> set ?arrays" for b
    using that by auto
  have sum: "sum_list (map (\<lambda>b. fst (snd (shape b))) ?arrays) = sum_list ks"
  proof -
    have "map (\<lambda>b. fst (snd (shape b))) ?arrays = map (\<lambda>(s, e). e - s) (div_slices 0 ks)"
      by (simp add: split_def)
    then show ?thesis by (simp only: div_slices_sizes)
  qed
  have fr: "concat (map (\<lambda>b. frames b ! f) ?arrays) =
        map (\<lambda>y. map (\<lambda>x. G f y x) [0..<W]) [0..<sum_list ks]" if "f < N" for f
  proof -
    have "map (\<lambda>b. frames b ! f) ?arrays =
        map (\<lambda>(s, e). map (\<lambda>y. map (\<lambda>x. G f (s + y) x) [0..<W]) [0..<e - s]) (div_slices 0 ks)"
      using that by (simp add: split_def out_array_frame)
    then have "concat (map (\<lambda>b. frames b ! f) ?arrays) =
        map (\<lambda>y. map (\<lambda>x. G f (0 + y) x) [0..<W]) [0..<sum_list ks]"
      by (simp only: concat_slices_rows [where r = "\<lambda>y. map (\<lambda>x. G f y x) [0..<W]"])
    then show ?thesis by simp
  qed
  have "map (\<lambda>f. concat (map (\<lambda>b. frames b ! f) ?arrays)) [0..<N] =
      tabulate3 N (sum_list ks) W G"
    unfolding tabulate3_def
  proof (rule map_cong)
    fix f assume "f \<in> set [0..<N]"
    then have "f < N" by simp
    then show "concat (map (\<lambda>b. frames b ! f) ?arrays) =
        map (\<lambda>y. map (\<lambda>x. G f y x) [0..<W]) [0..<sum_list ks]" by (rule fr)
  qed simp
  with np_concatenate_eq [of ?arrays N W Float32, OF ne sh] sum
  show ?thesis by (simp add: out_array_def)
qed

subsection \<open>When \<^verbatim>\<open>transform_stack\<close> returns, and what\<close>

lemma not_isl_iff: "\<not> isl v \<longleftrightarrow> (\<exists>c. v = Inr c)"
  by (cases v) auto

lemma transform_loop_returns_iff:
  assumes "shape mov = (N, H, W)"
  shows "transform_loop ev dt periods T_c L mov = Inr st \<longleftrightarrow>
     (\<forall>x < W. \<forall>y < H. \<not> isl (pixel_result ev dt periods T_c L mov x y)) \<and>
     st = loop_result ev dt periods T_c L mov"
  using transform_loop_Inr_iff [OF assms, of ev dt periods T_c L st]
  by (simp only: not_isl_iff)

lemma transform_stack_Inr_iff:
  fixes ev :: "('a::linordered_field, 'c, 'x, 'e) env"
  assumes shp: "shape mov = (N, H, W)"
    and grid: "(np_linspace Tmin Tmax nT :: 'e exn + 'a list) = Inr periods"
  shows "transform_stack ev mov dt Tmin Tmax nT T_c L = Inr r \<longleftrightarrow>
     (\<forall>x < W. \<forall>y < H. \<not> isl (pixel_result ev dt periods T_c L mov x y)) \<and>
     r = returned (loop_result ev dt periods T_c L mov)"
proof -
  have "transform_stack ev mov dt Tmin Tmax nT T_c L =
      (case transform_loop ev dt periods T_c L mov of Inl e \<Rightarrow> Inl e | Inr st \<Rightarrow> Inr (returned st))"
    by (simp add: transform_stack_def transform_stack_vars_def grid)
  note ts = this
  let ?ok = "\<forall>x < W. \<forall>y < H. \<not> isl (pixel_result ev dt periods T_c L mov x y)"
  show ?thesis
  proof (cases "transform_loop ev dt periods T_c L mov")
    case (Inl e)
    then have "\<not> ?ok"
      using transform_loop_returns_iff [OF shp, of ev dt periods T_c L
          "loop_result ev dt periods T_c L mov"] by simp
    with ts Inl show ?thesis by simp
  next
    case (Inr st)
    then have "?ok" and "st = loop_result ev dt periods T_c L mov"
      using transform_loop_returns_iff [OF shp, of ev dt periods T_c L st] by simp_all
    with ts Inr show ?thesis by auto
  qed
qed

lemma transform_stack_grid_error:
  fixes ev :: "('a::linordered_field, 'c, 'x, 'e) env"
  assumes "(np_linspace Tmin Tmax nT :: 'e exn + 'a list) = Inl e"
  shows "transform_stack ev mov dt Tmin Tmax nT T_c L = Inl e"
  by (simp add: transform_stack_def transform_stack_vars_def assms)

lemma out_array_slice:
  assumes "wf_array a" "shape a = (N, H, W)" "s \<le> e" "e \<le> H"
  shows "out_array (shape (slice_rows a s e)) (value_at sel ev dt periods T_c L (slice_rows a s e)) =
         out_array (N, e - s, W) (\<lambda>f y x. value_at sel ev dt periods T_c L a f (s + y) x)"
proof -
  have "tabulate3 N (e - s) W (value_at sel ev dt periods T_c L (slice_rows a s e)) =
        tabulate3 N (e - s) W (\<lambda>f y x. value_at sel ev dt periods T_c L a f (s + y) x)"
  proof (rule tabulate3_cong)
    fix f y x assume "y < e - s"
    with assms show "value_at sel ev dt periods T_c L (slice_rows a s e) f y x =
        value_at sel ev dt periods T_c L a f (s + y) x"
      by (simp add: value_at_def pixel_result_slice)
  qed
  then show ?thesis
    by (simp add: slice_rows_shape [OF assms(2,3,4)] out_array_def)
qed

lemma returned_slice:
  assumes "wf_array a" "shape a = (N, H, W)" "s \<le> e" "e \<le> H"
  shows "returned (loop_result ev dt periods T_c L (slice_rows a s e)) =
     (slice_out ev dt periods T_c L a fst (s, e),
      slice_out ev dt periods T_c L a (\<lambda>c. fst (snd c)) (s, e),
      slice_out ev dt periods T_c L a (\<lambda>c. fst (snd (snd c))) (s, e),
      slice_out ev dt periods T_c L a (\<lambda>c. snd (snd (snd c))) (s, e))"
  by (simp add: returned_def loop_result_def out_array_slice [OF assms] slice_out_def assms(2))

lemma transform_stack_slice:
  fixes ev :: "('a::linordered_field, 'c, 'x, 'e) env"
  assumes wf: "wf_array a" and shp: "shape a = (N, H, W)" and se: "s \<le> e" "e \<le> H"
    and grid: "(np_linspace Tmin Tmax nT :: 'e exn + 'a list) = Inr periods"
  shows "transform_stack ev (slice_rows a s e) dt Tmin Tmax nT T_c L = Inr r \<longleftrightarrow>
     (\<forall>x < W. \<forall>y. s \<le> y \<and> y < e \<longrightarrow> \<not> isl (pixel_result ev dt periods T_c L a x y)) \<and>
     r = (slice_out ev dt periods T_c L a fst (s, e),
          slice_out ev dt periods T_c L a (\<lambda>c. fst (snd c)) (s, e),
          slice_out ev dt periods T_c L a (\<lambda>c. fst (snd (snd c))) (s, e),
          slice_out ev dt periods T_c L a (\<lambda>c. snd (snd (snd c))) (s, e))"
proof -
  have "(\<forall>x < W. \<forall>y < e - s. \<not> isl (pixel_result ev dt periods T_c L (slice_rows a s e) x y))
      \<longleftrightarrow> (\<forall>x < W. \<forall>y. s \<le> y \<and> y < e \<longrightarrow> \<not> isl (pixel_result ev dt periods T_c L a x y))"
    (is "?l \<longleftrightarrow> ?r")
  proof
    assume l: ?l
    show ?r
    proof (intro allI impI)
      fix x y assume x: "x < W" and y: "s \<le> y \<and> y < e"
      then have ys: "y - s < e - s" by arith
      with l x have "\<not> isl (pixel_result ev dt periods T_c L (slice_rows a s e) x (y - s))"
        by blast
      moreover have "pixel_result ev dt periods T_c L (slice_rows a s e) x (y - s) =
          pixel_result ev dt periods T_c L a x (s + (y - s))"
        using wf shp se ys by (rule pixel_result_slice)
      moreover have "s + (y - s) = y" using y by simp
      ultimately show "\<not> isl (pixel_result ev dt periods T_c L a x y)" by simp
    qed
  next
    assume r: ?r
    show ?l
    proof (intro allI impI)
      fix x y assume x: "x < W" and y: "y < e - s"
      then have "s \<le> s + y \<and> s + y < e" by arith
      with r x have "\<not> isl (pixel_result ev dt periods T_c L a x (s + y))" by blast
      moreover have "pixel_result ev dt periods T_c L (slice_rows a s e) x y =
          pixel_result ev dt periods T_c L a x (s + y)"
        using wf shp se y by (rule pixel_result_slice)
      ultimately show "\<not> isl (pixel_result ev dt periods T_c L (slice_rows a s e) x y)"
        by simp
    qed
  qed
  with transform_stack_Inr_iff [OF slice_rows_shape [OF shp se] grid, of ev dt T_c L r]
  show ?thesis by (simp add: returned_slice [OF wf shp se])
qed

subsection \<open>\<^verbatim>\<open>run_parallel\<close> on a valid worker count\<close>

lemma sequence_Inl:
  "r \<in> set rs \<Longrightarrow> isl r \<Longrightarrow> isl (sequence rs)"
  by (induction rs) (auto split: sum.splits)

lemma run_parallel_unfold:
  fixes ev :: "('a::linordered_field, 'c, 'x, 'e) env"
  assumes "1 \<le> n_cpu" "n_cpu \<le> cpu_count ev"
  shows "run_parallel ev mov n_cpu dt Tmin Tmax nT T_c L =
     (case sequence (map (\<lambda>(s, e). transform_stack ev (slice_rows mov s e) dt Tmin Tmax nT T_c L)
                      (div_slices 0 (section_sizes (fst (snd (shape mov))) (nat n_cpu)))) of
        Inl e \<Rightarrow> Inl e
      | Inr res_movies \<Rightarrow>
       (case np_concatenate (map (\<lambda>r. fst r) res_movies) of
           Inl e \<Rightarrow> Inl e
         | Inr a1 \<Rightarrow>
       (case np_concatenate (map (\<lambda>r. fst (snd r)) res_movies) of
           Inl e \<Rightarrow> Inl e
         | Inr a2 \<Rightarrow>
       (case np_concatenate (map (\<lambda>r. fst (snd (snd r))) res_movies) of
           Inl e \<Rightarrow> Inl e
         | Inr a3 \<Rightarrow>
       (case np_concatenate (map (\<lambda>r. snd (snd (snd r))) res_movies) of
           Inl e \<Rightarrow> Inl e
         | Inr a4 \<Rightarrow> Inr (a1, a2, a3, a4))))))"
proof -
  have m: "(\<lambda>m. transform_stack ev m dt Tmin Tmax nT T_c L) \<circ> (\<lambda>(st, en). slice_rows mov st en) =
      (\<lambda>(s, e). transform_stack ev (slice_rows mov s e) dt Tmin Tmax nT T_c L)"
    by (simp add: fun_eq_iff)
  show ?thesis
    using assms
    by (simp add: run_parallel_def run_parallel_vars_def mp_Pool_def np_array_split_def
        starmap_def m returned_def Let_def split: sum.splits)
qed

lemma np_concatenate_slice_out:
  assumes "ks \<noteq> []" "shape a = (N, H, W)"
  shows "np_concatenate (map (slice_out ev dt periods T_c L a sel) (div_slices 0 ks)) =
         Inr (out_array (N, sum_list ks, W) (value_at sel ev dt periods T_c L a))"
  using np_concatenate_out [OF assms(1), of N W "value_at sel ev dt periods T_c L a"]
  by (simp add: slice_out_def [abs_def] assms(2))

lemma run_parallel_agrees:
  fixes ev :: "('a::linordered_field, 'c, 'x, 'e) env"
  assumes wf: "wf_array mov" and n: "1 \<le> n_cpu" "n_cpu \<le> cpu_count ev"
  shows "run_parallel ev mov n_cpu dt Tmin Tmax nT T_c L = Inr r \<longleftrightarrow>
         transform_stack ev mov dt Tmin Tmax nT T_c L = Inr r"
proof -
  obtain N H W where shp: "shape mov = (N, H, W)" by (cases "shape mov") auto
  define ks where "ks = section_sizes H (nat n_cpu)"
  define slices where "slices = div_slices 0 ks"
  define g where "g = (\<lambda>(s, e). transform_stack ev (slice_rows mov s e) dt Tmin Tmax nT T_c L)"
  from n have npos: "0 < nat n_cpu" by simp
  have ks_ne: "ks \<noteq> []" using section_sizes_length [OF npos, of H] npos
    by (auto simp: ks_def)
  have ks_sum: "sum_list ks = H" unfolding ks_def using npos by (rule section_sizes_sum)
  have slices_ne: "slices \<noteq> []" using ks_ne by (cases ks) (simp_all add: slices_def)
  have bounds: "s \<le> e \<and> e \<le> H" if "(s, e) \<in> set slices" for s e
    using div_slices_bounds [of s e 0 ks] that ks_sum by (simp add: slices_def)
  have rp: "run_parallel ev mov n_cpu dt Tmin Tmax nT T_c L =
     (case sequence (map g slices) of
        Inl e \<Rightarrow> Inl e
      | Inr res_movies \<Rightarrow>
       (case np_concatenate (map (\<lambda>r. fst r) res_movies) of
           Inl e \<Rightarrow> Inl e
         | Inr a1 \<Rightarrow>
       (case np_concatenate (map (\<lambda>r. fst (snd r)) res_movies) of
           Inl e \<Rightarrow> Inl e
         | Inr a2 \<Rightarrow>
       (case np_concatenate (map (\<lambda>r. fst (snd (snd r))) res_movies) of
           Inl e \<Rightarrow> Inl e
         | Inr a3 \<Rightarrow>
       (case np_concatenate (map (\<lambda>r. snd (snd (snd r))) res_movies) of
           Inl e \<Rightarrow> Inl e
         | Inr a4 \<Rightarrow> Inr (a1, a2, a3, a4))))))"
    unfolding g_def slices_def ks_def using run_parallel_unfold [OF n, of mov dt Tmin Tmax nT T_c L]
    by (simp add: shp)
  show ?thesis
  proof (cases "np_linspace Tmin Tmax nT :: 'e exn + 'a list")
    case (Inl e)
    then have ts: "transform_stack ev m dt Tmin Tmax nT T_c L = Inl e" for m
      by (rule transform_stack_grid_error)
    from slices_ne obtain p where p: "p \<in> set slices" by (cases slices) auto
    have "isl (g p)" by (simp add: g_def split_def ts)
    with p have "isl (sequence (map g slices))" by (intro sequence_Inl [of "g p"]) simp_all
    then obtain e' where "sequence (map g slices) = Inl e'" by (cases "sequence (map g slices)") auto
    with rp ts show ?thesis by simp
  next
    case (Inr periods)
    let ?ok = "\<forall>x < W. \<forall>y < H. \<not> isl (pixel_result ev dt periods T_c L mov x y)"
    let ?quad = "\<lambda>p. (slice_out ev dt periods T_c L mov fst p,
          slice_out ev dt periods T_c L mov (\<lambda>c. fst (snd c)) p,
          slice_out ev dt periods T_c L mov (\<lambda>c. fst (snd (snd c))) p,
          slice_out ev dt periods T_c L mov (\<lambda>c. snd (snd (snd c))) p)"
    have gp: "g (s, e) = Inr r' \<longleftrightarrow>
        (\<forall>x < W. \<forall>y. s \<le> y \<and> y < e \<longrightarrow> \<not> isl (pixel_result ev dt periods T_c L mov x y)) \<and>
        r' = ?quad (s, e)" if "(s, e) \<in> set slices" for s e r'
      using transform_stack_slice [OF wf shp _ _ Inr, of s e ev dt T_c L r'] bounds [OF that]
      by (simp add: g_def)
    have ts: "transform_stack ev mov dt Tmin Tmax nT T_c L = Inr r' \<longleftrightarrow>
        ?ok \<and> r' = returned (loop_result ev dt periods T_c L mov)" for r'
      using shp Inr by (rule transform_stack_Inr_iff)
    show ?thesis
    proof (cases ?ok)
      case True
      have gq: "g p = Inr (?quad p)" if "p \<in> set slices" for p
      proof -
        obtain s e where p: "p = (s, e)" by (cases p)
        from that bounds [of s e] p have "s \<le> e \<and> e \<le> H" by simp
        with True have "\<forall>x < W. \<forall>y. s \<le> y \<and> y < e \<longrightarrow>
            \<not> isl (pixel_result ev dt periods T_c L mov x y)" by auto
        with gp [of s e "?quad (s, e)"] that p show ?thesis by simp
      qed
      have mg: "map g slices = map (\<lambda>p. Inr (?quad p)) slices"
        by (rule map_cong [OF refl]) (rule gq)
      have sq: "sequence (map (\<lambda>p. Inr (?quad p)) slices) = Inr (map ?quad slices)"
        using sequence_map_Inr [of slices "\<lambda>p. Inr (?quad p)"] by simp
      have seq: "sequence (map g slices) = Inr (map ?quad slices)"
        unfolding mg by (rule sq)
      have cat: "np_concatenate (map (slice_out ev dt periods T_c L mov sel) slices) =
          Inr (out_array (N, H, W) (value_at sel ev dt periods T_c L mov))" for sel
        using np_concatenate_slice_out [OF ks_ne shp, of ev dt periods T_c L sel]
        by (simp add: slices_def ks_sum)
      have "run_parallel ev mov n_cpu dt Tmin Tmax nT T_c L =
          Inr (returned (loop_result ev dt periods T_c L mov))"
        by (simp add: rp seq comp_def cat returned_def loop_result_def shp)
      with ts True show ?thesis by auto
    next
      case False
      then obtain x y where x: "x < W" and y: "y < H"
        and bad: "isl (pixel_result ev dt periods T_c L mov x y)" by auto
      from y ks_sum div_slices_cover [of y ks] obtain s e
        where se: "(s, e) \<in> set slices" and sy: "s \<le> y" "y < e"
        by (auto simp: slices_def)
      have "isl (g (s, e))"
      proof (cases "g (s, e)")
        case (Inr r')
        with gp [OF se, of r'] x sy bad show ?thesis by blast
      qed simp
      with se have "isl (sequence (map g slices))"
        by (intro sequence_Inl [of "g (s, e)"]) simp_all
      then obtain e' where "sequence (map g slices) = Inl e'"
        by (cases "sequence (map g slices)") auto
      with rp have "run_parallel ev mov n_cpu dt Tmin Tmax nT T_c L = Inl e'" by simp
      with ts False show ?thesis by simp
    qed
  qed
qed

subsection \<open>\<^verbatim>\<open>down_sample\<close>: the check of the scale factor\<close>

lemma get_frame_error: "get_frame a f = Inl e \<Longrightarrow> e = IndexError ''index is out of bounds''"
  by (auto simp: get_frame_def split: prod.splits if_splits)

lemma set_frame_error:
  "set_frame cast a f img = Inl e \<Longrightarrow> e = ValueError ''could not broadcast input array''"
  by (auto simp: set_frame_def split: prod.splits if_splits)

lemma down_sample_body_error:
  assumes "(case get_frame mov frame of
              Inl e \<Rightarrow> Inl e
            | Inr img \<Rightarrow>
               (case rescale ev img sf of
                  Inl e \<Rightarrow> Inl (Raised e)
                | Inr small \<Rightarrow> set_frame cast ds frame small)) = Inl e"
  shows "e \<noteq> ValueError ''Upscaling is not supported!''"
  using assms
  by (auto split: sum.splits dest!: get_frame_error set_frame_error)

text \<open>
  Claim C6. \<^verbatim>\<open>down_sample(movie, scale_factor)\<close> raises its validation error, the
  \<^verbatim>\<open>ValueError\<close> "Upscaling is not supported!", if and only if \<open>scale_factor > 1\<close>. The
  equation holds for every movie and every behaviour of \<^verbatim>\<open>rescale\<close>: for a scale factor
  above one the error does not depend on them (it is raised before a frame is read or
  rescaled), and for a scale factor of at most one whatever else is raised (an
  \<^verbatim>\<open>IndexError\<close> on a movie without frames, an exception of \<^verbatim>\<open>rescale\<close>, a broadcasting
  error of numpy) is not that error.
\<close>

theorem down_sample_validation:
  fixes ev :: "('a::linordered_field, 'c, 'x, 'e) env"
  shows "(down_sample ev mov scale_factor = Inl (ValueError ''Upscaling is not supported!''))
     = (1 < scale_factor)"
proof (cases "1 < scale_factor")
  case True
  then show ?thesis by (simp add: down_sample_def)
next
  case False
  have "down_sample ev mov scale_factor \<noteq> Inl (ValueError ''Upscaling is not supported!'')"
  proof
    assume a: "down_sample ev mov scale_factor = Inl (ValueError ''Upscaling is not supported!'')"
    show False
    proof (cases "get_frame mov 0 :: 'e exn + 'a image")
      case (Inl e)
      with a False get_frame_error [OF Inl] show False by (simp add: down_sample_def)
    next
      case (Inr first)
      show False
      proof (cases "rescale ev first scale_factor")
        case (Inl e)
        with a False Inr show False by (simp add: down_sample_def)
      next
        case r: (Inr frame1)
        from a False Inr r obtain i s' where
          "(case get_frame mov i of
              Inl e \<Rightarrow> Inl e
            | Inr img \<Rightarrow>
               (case rescale ev img scale_factor of
                  Inl e \<Rightarrow> Inl (Raised e)
                | Inr small \<Rightarrow> set_frame (astype ev) s' i small))
           = Inl (ValueError ''Upscaling is not supported!'')"
          by (auto simp: down_sample_def Let_def dest!: for_each_error)
        from down_sample_body_error [OF this] show False by simp
      qed
    qed
  qed
  with False show ?thesis by simp
qed

subsection \<open>\<^verbatim>\<open>run_parallel\<close>: more workers requested than available\<close>

text \<open>
  Claim C2. The claim: a request for more workers than \<^verbatim>\<open>mp.cpu_count()\<close> reports warns,
  clamps the count and completes. The code: the warning of line 226 reads the name
  \<^verbatim>\<open>ncpu_req\<close>, which is bound nowhere (the parameter is \<^verbatim>\<open>n_cpu\<close>), so every such call
  ends in a \<^verbatim>\<open>NameError\<close> before the count is clamped on line 229.
\<close>

theorem run_parallel_over_request:
  "cpu_count ev < n_cpu \<Longrightarrow>
   run_parallel ev mov n_cpu dt Tmin Tmax nT T_c L = Inl (NameError ''ncpu_req'')"
  by (simp add: run_parallel_def run_parallel_vars_def run_parallel_scope_def)

theorem run_parallel_over_request_witness:
  "cpu_count demo_env < 5 \<and>
   run_parallel demo_env demo_movie 5 1 10 30 21 None None = Inl (NameError ''ncpu_req'')"
  using run_parallel_over_request [of demo_env 5 demo_movie 1 10 30 21 None None]
  by (simp add: demo_env_def)

subsection \<open>\<^verbatim>\<open>run_parallel\<close> against \<^verbatim>\<open>transform_stack\<close>\<close>

text \<open>
  Claim C1. For a movie of shape \<open>(N, H, W)\<close> and a worker count \<open>n_cpu\<close> with
  \<open>1 \<le> n_cpu \<le> H\<close> that does not exceed the available processors,
  \<^verbatim>\<open>run_parallel\<close> returns four movies exactly when a single \<^verbatim>\<open>transform_stack\<close> call on the
  whole movie does, and then the four movies are the same arrays: the same shape, the same
  element type and the same value at every frame and pixel. (When one call raises, so does
  the other; which exception a pool with several failing workers reports is not compared.
  The bound \<open>n_cpu \<le> H\<close> is the claim's; the proof does not need it.)
\<close>

theorem run_parallel_equals_transform_stack:
  fixes ev :: "('a::linordered_field, 'c, 'x, 'e) env"
  assumes "wf_array mov" and "shape mov = (N, H, W)"
    and "1 \<le> n_cpu" and "n_cpu \<le> int H" and "n_cpu \<le> cpu_count ev"
  shows "run_parallel ev mov n_cpu dt Tmin Tmax nT T_c L = Inr r \<longleftrightarrow>
         transform_stack ev mov dt Tmin Tmax nT T_c L = Inr r"
  using assms(1,3,5) by (rule run_parallel_agrees)

theorem run_parallel_equals_transform_stack_witness:
  "wf_array demo_movie \<and> shape demo_movie = (2, 2, 1) \<and>
   (1::int) \<le> 2 \<and> (2::int) \<le> int 2 \<and> 2 \<le> cpu_count demo_env \<and>
   run_parallel demo_env demo_movie 2 1 10 30 3 None None =
     Inr (\<lparr>shape = (2, 2, 1), dtype = Float32, frames = [[[31], [32]], [[33], [34]]]\<rparr>,
          \<lparr>shape = (2, 2, 1), dtype = Float32, frames = [[[30], [30]], [[30], [30]]]\<rparr>,
          \<lparr>shape = (2, 2, 1), dtype = Float32, frames = [[[30], [60]], [[90], [120]]]\<rparr>,
          \<lparr>shape = (2, 2, 1), dtype = Float32, frames = [[[60], [90]], [[120], [150]]]\<rparr>)"
proof -
  have wf: "wf_array demo_movie" by code_simp
  have shp: "shape demo_movie = (2, 2, 1)" by code_simp
  have n: "(1::int) \<le> 2" "(2::int) \<le> int 2" "2 \<le> cpu_count demo_env" by code_simp+
  have ts: "transform_stack demo_env demo_movie 1 10 30 3 None None =
     Inr (\<lparr>shape = (2, 2, 1), dtype = Float32, frames = [[[31], [32]], [[33], [34]]]\<rparr>,
          \<lparr>shape = (2, 2, 1), dtype = Float32, frames = [[[30], [30]], [[30], [30]]]\<rparr>,
          \<lparr>shape = (2, 2, 1), dtype = Float32, frames = [[[30], [60]], [[90], [120]]]\<rparr>,
          \<lparr>shape = (2, 2, 1), dtype = Float32, frames = [[[60], [90]], [[120], [150]]]\<rparr>)"
    by code_simp
  from run_parallel_equals_transform_stack [OF wf shp n, of 1 10 30 3 None None] ts wf shp n
  show ?thesis by simp
qed

subsection \<open>What \<^verbatim>\<open>transform_stack\<close> checks of its parameters\<close>

lemma transform_stack_returns_cases:
  fixes ev :: "('a::linordered_field, 'c, 'x, 'e) env"
  assumes "transform_stack ev mov dt Tmin Tmax nT T_c L = Inr r"
  obtains periods where "(np_linspace Tmin Tmax nT :: 'e exn + 'a list) = Inr periods"
    and "r = returned (loop_result ev dt periods T_c L mov)"
proof (cases "np_linspace Tmin Tmax nT :: 'e exn + 'a list")
  case (Inl e)
  with assms transform_stack_grid_error [OF Inl, of ev mov dt T_c L] show ?thesis by simp
next
  case (Inr periods)
  obtain N H W where shp: "shape mov = (N, H, W)" by (cases "shape mov") auto
  from transform_stack_Inr_iff [OF shp Inr, of ev dt T_c L r] assms
  have "r = returned (loop_result ev dt periods T_c L mov)" by simp
  with Inr that show ?thesis by simp
qed

text \<open>
  Claim C3, as stated, fails: \<^verbatim>\<open>transform_stack\<close> has no check of its parameters. With
  \<open>Tmin = 30 > Tmax = 10\<close>, and with \<open>dt = 0\<close>, the call below enters the pixel loop and
  returns four movies (the grid of the first call is \<open>[30, 20, 10]\<close>).
\<close>

theorem no_parameter_validation_counterexample:
  "transform_stack demo_env demo_movie 1 30 10 3 None None =
     Inr (\<lparr>shape = (2, 2, 1), dtype = Float32, frames = [[[11], [12]], [[13], [14]]]\<rparr>,
          \<lparr>shape = (2, 2, 1), dtype = Float32, frames = [[[10], [10]], [[10], [10]]]\<rparr>,
          \<lparr>shape = (2, 2, 1), dtype = Float32, frames = [[[10], [20]], [[30], [40]]]\<rparr>,
          \<lparr>shape = (2, 2, 1), dtype = Float32, frames = [[[20], [30]], [[40], [50]]]\<rparr>) \<and>
   transform_stack demo_env demo_movie 0 10 30 3 None None =
     Inr (\<lparr>shape = (2, 2, 1), dtype = Float32, frames = [[[31], [32]], [[33], [34]]]\<rparr>,
          \<lparr>shape = (2, 2, 1), dtype = Float32, frames = [[[30], [30]], [[30], [30]]]\<rparr>,
          \<lparr>shape = (2, 2, 1), dtype = Float32, frames = [[[30], [60]], [[90], [120]]]\<rparr>,
          \<lparr>shape = (2, 2, 1), dtype = Float32, frames = [[[30], [30]], [[30], [30]]]\<rparr>)"
  by code_simp

text \<open>
  Claim C3, amended. The only parameter error that \<^verbatim>\<open>transform_stack\<close> raises before the
  pixel loop is the \<^verbatim>\<open>ValueError\<close> of \<^verbatim>\<open>np.linspace\<close> for a negative \<open>nT\<close>: then the call
  raises it for every movie and every behaviour of the external routines, and returns
  nothing. For \<open>nT \<ge> 0\<close> the grid is built whatever \<open>Tmin\<close>, \<open>Tmax\<close> and \<open>dt\<close> are, the
  parameters reach the per-pixel pipeline unchecked, and the call returns four movies if
  and only if that pipeline raises at no pixel.
\<close>

theorem parameter_errors:
  fixes ev :: "('a::linordered_field, 'c, 'x, 'e) env"
  assumes "shape mov = (N, H, W)"
  shows "(nT < 0 \<longrightarrow>
            transform_stack ev mov dt Tmin Tmax nT T_c L =
              Inl (ValueError ''Number of samples must be non-negative.'')) \<and>
         (0 \<le> nT \<longrightarrow>
            (\<exists>periods. (np_linspace Tmin Tmax nT :: 'e exn + 'a list) = Inr periods \<and>
               ((\<exists>r. transform_stack ev mov dt Tmin Tmax nT T_c L = Inr r) \<longleftrightarrow>
                (\<forall>x < W. \<forall>y < H. \<not> isl (pixel_result ev dt periods T_c L mov x y)))))"
proof (intro conjI impI)
  assume "nT < 0"
  then have "(np_linspace Tmin Tmax nT :: 'e exn + 'a list) =
      Inl (ValueError ''Number of samples must be non-negative.'')"
    by (simp add: np_linspace_def)
  then show "transform_stack ev mov dt Tmin Tmax nT T_c L =
      Inl (ValueError ''Number of samples must be non-negative.'')"
    by (rule transform_stack_grid_error)
next
  assume "0 \<le> nT"
  then obtain periods where g: "(np_linspace Tmin Tmax nT :: 'e exn + 'a list) = Inr periods"
    by (auto simp: np_linspace_eq)
  from transform_stack_Inr_iff [OF assms g, of ev dt T_c L]
  have "(\<exists>r. transform_stack ev mov dt Tmin Tmax nT T_c L = Inr r) \<longleftrightarrow>
                (\<forall>x < W. \<forall>y < H. \<not> isl (pixel_result ev dt periods T_c L mov x y))"
    by blast
  with g show "\<exists>periods. (np_linspace Tmin Tmax nT :: 'e exn + 'a list) = Inr periods \<and>
               ((\<exists>r. transform_stack ev mov dt Tmin Tmax nT T_c L = Inr r) \<longleftrightarrow>
                (\<forall>x < W. \<forall>y < H. \<not> isl (pixel_result ev dt periods T_c L mov x y)))"
    by blast
qed

theorem parameter_errors_witness:
  "shape demo_movie = (2, 2, 1) \<and>
   transform_stack demo_env demo_movie 1 10 30 (- 1) None None =
     Inl (ValueError ''Number of samples must be non-negative.'') \<and>
   (np_linspace 30 10 3 :: unit exn + rat list) = Inr [30, 20, 10] \<and>
   \<not> isl (transform_stack demo_env demo_movie 1 30 10 3 None None) \<and>
   \<not> isl (pixel_result demo_env 1 [30, 20, 10] None None demo_movie 0 0) \<and>
   \<not> isl (pixel_result demo_env 1 [30, 20, 10] None None demo_movie 0 1)"
proof -
  have shp: "shape demo_movie = (2, 2, 1)" by code_simp
  have l: "(np_linspace 30 10 3 :: unit exn + rat list) = Inr [30, 20, 10]" by code_simp
  have ts: "\<not> isl (transform_stack demo_env demo_movie 1 30 10 3 None None)" by code_simp
  then have ex: "\<exists>r. transform_stack demo_env demo_movie 1 30 10 3 None None = Inr r"
    by (cases "transform_stack demo_env demo_movie 1 30 10 3 None None") auto
  from parameter_errors [OF shp, of "- 1" demo_env 1 10 30 None None]
  have a: "transform_stack demo_env demo_movie 1 10 30 (- 1) None None =
     Inl (ValueError ''Number of samples must be non-negative.'')" by simp
  from parameter_errors [OF shp, of 3 demo_env 1 30 10 None None] l ex
  have "\<forall>x < 1. \<forall>y < 2. \<not> isl (pixel_result demo_env 1 [30, 20, 10] None None demo_movie x y)"
    by auto
  then have "\<not> isl (pixel_result demo_env 1 [30, 20, 10] None None demo_movie 0 0)"
    "\<not> isl (pixel_result demo_env 1 [30, 20, 10] None None demo_movie 0 1)"
    by simp_all
  with shp a l ts show ?thesis by simp
qed

subsection \<open>The period grid\<close>




subsection \<open>The row-wise split and its inverse\<close>









subsection \<open>Shape and element type of the outputs\<close>

lemma run_parallel_returns_bounds:
  fixes ev :: "('a::linordered_field, 'c, 'x, 'e) env"
  assumes "run_parallel ev mov n_cpu dt Tmin Tmax nT T_c L = Inr r"
  shows "1 \<le> n_cpu \<and> n_cpu \<le> cpu_count ev"
proof -
  have "n_cpu \<le> cpu_count ev"
  proof (rule ccontr)
    assume "\<not> n_cpu \<le> cpu_count ev"
    then have "run_parallel ev mov n_cpu dt Tmin Tmax nT T_c L = Inl (NameError ''ncpu_req'')"
      by (simp add: run_parallel_def run_parallel_vars_def run_parallel_scope_def)
    with assms show False by simp
  qed
  moreover have "1 \<le> n_cpu"
  proof (rule ccontr)
    assume "\<not> 1 \<le> n_cpu"
    with \<open>n_cpu \<le> cpu_count ev\<close>
    have "run_parallel ev mov n_cpu dt Tmin Tmax nT T_c L =
        Inl (ValueError ''Number of processes must be at least 1'')"
      by (simp add: run_parallel_def run_parallel_vars_def mp_Pool_def)
    with assms show False by simp
  qed
  ultimately show ?thesis by simp
qed

lemma out_array_output_like: "output_like mov (out_array (shape mov) g)"
  by (simp add: output_like_def out_array_wf)

lemma transform_stack_output_like:
  fixes ev :: "('a::linordered_field, 'c, 'x, 'e) env"
  assumes "transform_stack ev mov dt Tmin Tmax nT T_c L = Inr (ph, pe, po, am)"
  shows "output_like mov ph \<and> output_like mov pe \<and> output_like mov po \<and> output_like mov am"
proof -
  from assms obtain periods where
    "(ph, pe, po, am) = returned (loop_result ev dt periods T_c L mov)"
    by (rule transform_stack_returns_cases)
  then show ?thesis
    by (simp add: returned_def loop_result_def out_array_output_like)
qed

text \<open>
  Claim C7. Each of the four movies that \<^verbatim>\<open>transform_stack\<close> returns, and each of the four
  that \<^verbatim>\<open>run_parallel\<close> returns, has exactly the shape \<open>(N, H, W)\<close> of the input movie and
  the element type float32 (\<open>output_like\<close>: the shape, the element type, and elements that
  fill that shape).
\<close>

theorem outputs_shape_and_dtype:
  fixes ev :: "('a::linordered_field, 'c, 'x, 'e) env"
  shows "(transform_stack ev mov dt Tmin Tmax nT T_c L = Inr (ph, pe, po, am) \<longrightarrow>
            output_like mov ph \<and> output_like mov pe \<and> output_like mov po \<and> output_like mov am) \<and>
         (wf_array mov \<and> run_parallel ev mov n_cpu dt Tmin Tmax nT T_c L = Inr (ph', pe', po', am') \<longrightarrow>
            output_like mov ph' \<and> output_like mov pe' \<and> output_like mov po' \<and> output_like mov am')"
proof -
  have one: "output_like mov ph \<and> output_like mov pe \<and> output_like mov po \<and> output_like mov am"
    if "transform_stack ev mov dt Tmin Tmax nT T_c L = Inr (ph, pe, po, am)"
    using that by (rule transform_stack_output_like)
  have two: "output_like mov ph' \<and> output_like mov pe' \<and> output_like mov po' \<and> output_like mov am'"
    if a: "wf_array mov \<and> run_parallel ev mov n_cpu dt Tmin Tmax nT T_c L = Inr (ph', pe', po', am')"
  proof -
    from a have "1 \<le> n_cpu \<and> n_cpu \<le> cpu_count ev" by (auto dest: run_parallel_returns_bounds)
    with a have "transform_stack ev mov dt Tmin Tmax nT T_c L = Inr (ph', pe', po', am')"
      using run_parallel_agrees [of mov n_cpu ev dt Tmin Tmax nT T_c L "(ph', pe', po', am')"] by simp
    then show ?thesis by (rule transform_stack_output_like)
  qed
  from one two show ?thesis by blast
qed

theorem outputs_shape_and_dtype_witness:
  "transform_stack demo_env demo_movie 1 10 30 3 None None =
     Inr (\<lparr>shape = (2, 2, 1), dtype = Float32, frames = [[[31], [32]], [[33], [34]]]\<rparr>,
          \<lparr>shape = (2, 2, 1), dtype = Float32, frames = [[[30], [30]], [[30], [30]]]\<rparr>,
          \<lparr>shape = (2, 2, 1), dtype = Float32, frames = [[[30], [60]], [[90], [120]]]\<rparr>,
          \<lparr>shape = (2, 2, 1), dtype = Float32, frames = [[[60], [90]], [[120], [150]]]\<rparr>) \<and>
   wf_array demo_movie \<and>
   run_parallel demo_env demo_movie 2 1 10 30 3 None None =
     Inr (\<lparr>shape = (2, 2, 1), dtype = Float32, frames = [[[31], [32]], [[33], [34]]]\<rparr>,
          \<lparr>shape = (2, 2, 1), dtype = Float32, frames = [[[30], [30]], [[30], [30]]]\<rparr>,
          \<lparr>shape = (2, 2, 1), dtype = Float32, frames = [[[30], [60]], [[90], [120]]]\<rparr>,
          \<lparr>shape = (2, 2, 1), dtype = Float32, frames = [[[60], [90]], [[120], [150]]]\<rparr>) \<and>
   output_like demo_movie
     \<lparr>shape = (2, 2, 1), dtype = Float32, frames = [[[31], [32]], [[33], [34]]]\<rparr> \<and>
   output_like demo_movie
     \<lparr>shape = (2, 2, 1), dtype = Float32, frames = [[[60], [90]], [[120], [150]]]\<rparr>"
proof -
  have ts: "transform_stack demo_env demo_movie 1 10 30 3 None None =
     Inr (\<lparr>shape = (2, 2, 1), dtype = Float32, frames = [[[31], [32]], [[33], [34]]]\<rparr>,
          \<lparr>shape = (2, 2, 1), dtype = Float32, frames = [[[30], [30]], [[30], [30]]]\<rparr>,
          \<lparr>shape = (2, 2, 1), dtype = Float32, frames = [[[30], [60]], [[90], [120]]]\<rparr>,
          \<lparr>shape = (2, 2, 1), dtype = Float32, frames = [[[60], [90]], [[120], [150]]]\<rparr>)"
    by code_simp
  have rp: "run_parallel demo_env demo_movie 2 1 10 30 3 None None =
     Inr (\<lparr>shape = (2, 2, 1), dtype = Float32, frames = [[[31], [32]], [[33], [34]]]\<rparr>,
          \<lparr>shape = (2, 2, 1), dtype = Float32, frames = [[[30], [30]], [[30], [30]]]\<rparr>,
          \<lparr>shape = (2, 2, 1), dtype = Float32, frames = [[[30], [60]], [[90], [120]]]\<rparr>,
          \<lparr>shape = (2, 2, 1), dtype = Float32, frames = [[[60], [90]], [[120], [150]]]\<rparr>)"
    by code_simp
  have wf: "wf_array demo_movie" by code_simp
  from outputs_shape_and_dtype [of demo_env demo_movie 1 10 30 3 None None
      "\<lparr>shape = (2, 2, 1), dtype = Float32, frames = [[[31], [32]], [[33], [34]]]\<rparr>"
      "\<lparr>shape = (2, 2, 1), dtype = Float32, frames = [[[30], [30]], [[30], [30]]]\<rparr>"
      "\<lparr>shape = (2, 2, 1), dtype = Float32, frames = [[[30], [60]], [[90], [120]]]\<rparr>"
      "\<lparr>shape = (2, 2, 1), dtype = Float32, frames = [[[60], [90]], [[120], [150]]]\<rparr>"
      2
      "\<lparr>shape = (2, 2, 1), dtype = Float32, frames = [[[31], [32]], [[33], [34]]]\<rparr>"
      "\<lparr>shape = (2, 2, 1), dtype = Float32, frames = [[[30], [30]], [[30], [30]]]\<rparr>"
      "\<lparr>shape = (2, 2, 1), dtype = Float32, frames = [[[30], [60]], [[90], [120]]]\<rparr>"
      "\<lparr>shape = (2, 2, 1), dtype = Float32, frames = [[[60], [90]], [[120], [150]]]\<rparr>"]
    ts rp wf
  show ?thesis by simp
qed

subsection \<open>Detrending and amplitude normalization\<close>

lemma np_subtract_same_length:
  "length b = length a \<Longrightarrow> np_subtract a b = Inr (map2 (\<lambda>u w. u - w) a b)"
  by (simp add: np_subtract_def)

lemma ridge_readout_spectrum:
  assumes "ridge_readout ev dt periods signal = Inr q"
  shows "\<exists>modulus wlet. compute_spectrum ev signal dt periods = Inr (modulus, wlet)"
  using assms
  by (auto simp: ridge_readout_def Let_def split: sum.splits prod.splits)

lemma get_column_out_array:
  assumes "x < W" "y < H"
  shows "get_column (out_array (N, H, W) g) y x = map (\<lambda>f. g f y x) [0..<N]"
  using assms by (simp add: get_column_def out_array_def tabulate3_def)

lemma map_nth_upt: "length c = N \<Longrightarrow> map (\<lambda>f. h (c ! f)) [0..<N] = map h c"
proof -
  assume "length c = N"
  then have "map ((!) c) [0..<N] = c" using map_nth [of c] by simp
  then have "map h (map ((!) c) [0..<N]) = map h c" by simp
  then show ?thesis by (simp add: comp_def)
qed

lemma pixel_columns_InrD:
  fixes ev :: "('a::linordered_field, 'c, 'x, 'e) env"
  assumes "pixel_columns ev dt periods T_c L N v = Inr (c1, c2, c3, c4)"
  shows "\<exists>phases ridge_periods powers amplitudes.
           pixel_transform ev dt periods T_c L v = Inr (phases, ridge_periods, powers, amplitudes) \<and>
           broadcast_to N phases = (Inr c1 :: 'e exn + 'a list) \<and>
           broadcast_to N ridge_periods = (Inr c2 :: 'e exn + 'a list) \<and>
           broadcast_to N powers = (Inr c3 :: 'e exn + 'a list) \<and>
           broadcast_to N amplitudes = (Inr c4 :: 'e exn + 'a list)"
  using assms
  by (auto simp: pixel_columns_def split: sum.splits prod.splits)

lemma transform_stack_pixel:
  fixes ev :: "('a::linordered_field, 'c, 'x, 'e) env"
  assumes ts: "transform_stack ev mov dt Tmin Tmax nT T_c L = Inr (ph, pe, po, am)"
    and shp: "shape mov = (N, H, W)" and x: "x < W" and y: "y < H"
  shows "\<exists>periods phases ridge_periods powers amplitudes c1 c2 c3 c4.
      (np_linspace Tmin Tmax nT :: 'e exn + 'a list) = Inr periods \<and>
      pixel_transform ev dt periods T_c L (get_column mov y x) =
        Inr (phases, ridge_periods, powers, amplitudes) \<and>
      broadcast_to N phases = (Inr c1 :: 'e exn + 'a list) \<and>
      broadcast_to N ridge_periods = (Inr c2 :: 'e exn + 'a list) \<and>
      broadcast_to N powers = (Inr c3 :: 'e exn + 'a list) \<and>
      broadcast_to N amplitudes = (Inr c4 :: 'e exn + 'a list) \<and>
      get_column ph y x = map (astype ev Float32) c1 \<and>
      get_column pe y x = map (astype ev Float32) c2 \<and>
      get_column po y x = map (astype ev Float32) c3 \<and>
      get_column am y x = map (astype ev Float32) c4"
proof -
  from ts obtain periods where grid: "(np_linspace Tmin Tmax nT :: 'e exn + 'a list) = Inr periods"
    and r: "(ph, pe, po, am) = returned (loop_result ev dt periods T_c L mov)"
    by (rule transform_stack_returns_cases)
  from transform_stack_Inr_iff [OF shp grid, of ev dt T_c L "(ph, pe, po, am)"] ts x y
  have "\<not> isl (pixel_result ev dt periods T_c L mov x y)" by simp
  then obtain c where c: "pixel_result ev dt periods T_c L mov x y = Inr c"
    by (cases "pixel_result ev dt periods T_c L mov x y") auto
  obtain c1 c2 c3 c4 where c4: "c = (c1, c2, c3, c4)" by (cases c) auto
  from c c4 shp have pc: "pixel_columns ev dt periods T_c L N (get_column mov y x) = Inr (c1, c2, c3, c4)"
    by (simp add: pixel_result_def)
  from pixel_columns_length [OF pc]
  have len: "length c1 = N" "length c2 = N" "length c3 = N" "length c4 = N" .
  from pixel_columns_InrD [OF pc] obtain phases ridge_periods powers amplitudes where
    pt: "pixel_transform ev dt periods T_c L (get_column mov y x) =
        Inr (phases, ridge_periods, powers, amplitudes)"
    and b: "broadcast_to N phases = (Inr c1 :: 'e exn + 'a list)"
      "broadcast_to N ridge_periods = (Inr c2 :: 'e exn + 'a list)"
      "broadcast_to N powers = (Inr c3 :: 'e exn + 'a list)"
      "broadcast_to N amplitudes = (Inr c4 :: 'e exn + 'a list)"
    by blast
  from r have out: "ph = out_array (N, H, W) (value_at fst ev dt periods T_c L mov)"
    "pe = out_array (N, H, W) (value_at (\<lambda>c. fst (snd c)) ev dt periods T_c L mov)"
    "po = out_array (N, H, W) (value_at (\<lambda>c. fst (snd (snd c))) ev dt periods T_c L mov)"
    "am = out_array (N, H, W) (value_at (\<lambda>c. snd (snd (snd c))) ev dt periods T_c L mov)"
    by (simp_all add: returned_def loop_result_def shp)
  have col: "get_column (out_array (N, H, W) (value_at sel ev dt periods T_c L mov)) y x =
      map (astype ev Float32) (sel c)" if "length (sel c) = N" for sel
  proof -
    have "get_column (out_array (N, H, W) (value_at sel ev dt periods T_c L mov)) y x =
        map (\<lambda>f. astype ev Float32 (sel c ! f)) [0..<N]"
      using x y by (simp add: get_column_out_array value_at_def c)
    also have "\<dots> = map (astype ev Float32) (sel c)" using that by (rule map_nth_upt)
    finally show ?thesis .
  qed
  have "get_column ph y x = map (astype ev Float32) c1"
    "get_column pe y x = map (astype ev Float32) c2"
    "get_column po y x = map (astype ev Float32) c3"
    "get_column am y x = map (astype ev Float32) c4"
    unfolding out
    using col [of fst] col [of "\<lambda>c. fst (snd c)"] col [of "\<lambda>c. fst (snd (snd c))"]
      col [of "\<lambda>c. snd (snd (snd c))"] len
    by (simp_all add: c4)
  with grid pt b show ?thesis by blast
qed

text \<open>
  Claim C8. For the time series \<open>v\<close> of a pixel, a cut-off \<open>c\<close> and a window \<open>l\<close>:
  \<^item> with \<open>T_c\<close> and \<open>L\<close> both \<open>None\<close> the spectral part (\<open>ridge_readout\<close>) receives \<open>v\<close>
    itself: no trend is subtracted, nothing is normalized;
  \<^item> with \<open>T_c = c\<close> and the trend \<^verbatim>\<open>pb.sinc_smooth(v, c, dt)\<close> (a series of the length of
    \<open>v\<close>), it receives the element-wise difference of \<open>v\<close> and the trend;
  \<^item> with \<open>L = l\<close> it receives \<^verbatim>\<open>pb.normalize_with_envelope(s, l, dt)\<close>, where \<open>s\<close> is \<open>v\<close>
    when \<open>T_c\<close> is \<open>None\<close> and the detrended series otherwise;
  \<^item> the series that the spectral part receives is the one handed to
    \<^verbatim>\<open>pb.compute_spectrum\<close>;
  \<^item> and this is what \<^verbatim>\<open>transform_stack\<close> does at every pixel: when it returns, the column
    of each output movie at row \<open>y\<close> and column \<open>x\<close> holds the read-out of
    \<open>pixel_transform\<close> on \<^verbatim>\<open>movie[:, y, x]\<close>, with the period grid of the call, broadcast to
    the frames and cast to float32.
\<close>

theorem preprocessing_branches:
  fixes ev :: "('a::linordered_field, 'c, 'x, 'e) env"
  shows
   "pixel_transform ev dt periods None None v = ridge_readout ev dt periods v \<and>
    (sinc_smooth ev v c dt = Inr trend \<and> length trend = length v \<longrightarrow>
       pixel_transform ev dt periods (Some c) None v =
         ridge_readout ev dt periods (map2 (\<lambda>u w. u - w) v trend)) \<and>
    (normalize_with_envelope ev v l dt = Inr normalized \<longrightarrow>
       pixel_transform ev dt periods None (Some l) v = ridge_readout ev dt periods normalized) \<and>
    (sinc_smooth ev v c dt = Inr trend \<and> length trend = length v \<and>
     normalize_with_envelope ev (map2 (\<lambda>u w. u - w) v trend) l dt = Inr normalized' \<longrightarrow>
       pixel_transform ev dt periods (Some c) (Some l) v = ridge_readout ev dt periods normalized') \<and>
    (ridge_readout ev dt periods signal = Inr q \<longrightarrow>
       (\<exists>modulus wlet. compute_spectrum ev signal dt periods = Inr (modulus, wlet))) \<and>
    (transform_stack ev mov dt Tmin Tmax nT T_c L = Inr (ph, pe, po, am) \<and>
     shape mov = (N, H, W) \<and> x < W \<and> y < H \<longrightarrow>
       (\<exists>grid phases ridge_periods powers amplitudes c1 c2 c3 c4.
          (np_linspace Tmin Tmax nT :: 'e exn + 'a list) = Inr grid \<and>
          pixel_transform ev dt grid T_c L (get_column mov y x) =
            Inr (phases, ridge_periods, powers, amplitudes) \<and>
          broadcast_to N phases = (Inr c1 :: 'e exn + 'a list) \<and>
          broadcast_to N ridge_periods = (Inr c2 :: 'e exn + 'a list) \<and>
          broadcast_to N powers = (Inr c3 :: 'e exn + 'a list) \<and>
          broadcast_to N amplitudes = (Inr c4 :: 'e exn + 'a list) \<and>
          get_column ph y x = map (astype ev Float32) c1 \<and>
          get_column pe y x = map (astype ev Float32) c2 \<and>
          get_column po y x = map (astype ev Float32) c3 \<and>
          get_column am y x = map (astype ev Float32) c4))"
proof -
  have none: "pixel_transform ev dt periods None None v = ridge_readout ev dt periods v"
    by (simp add: pixel_transform_def)
  have detrend: "pixel_transform ev dt periods (Some c) None v =
         ridge_readout ev dt periods (map2 (\<lambda>u w. u - w) v trend)"
    if "sinc_smooth ev v c dt = Inr trend \<and> length trend = length v"
    using that by (simp add: pixel_transform_def np_subtract_same_length)
  have normalize: "pixel_transform ev dt periods None (Some l) v =
         ridge_readout ev dt periods normalized"
    if "normalize_with_envelope ev v l dt = Inr normalized"
    using that by (simp add: pixel_transform_def)
  have both: "pixel_transform ev dt periods (Some c) (Some l) v =
         ridge_readout ev dt periods normalized'"
    if "sinc_smooth ev v c dt = Inr trend \<and> length trend = length v \<and>
     normalize_with_envelope ev (map2 (\<lambda>u w. u - w) v trend) l dt = Inr normalized'"
    using that by (simp add: pixel_transform_def np_subtract_same_length)
  have spectrum: "\<exists>modulus wlet. compute_spectrum ev signal dt periods = Inr (modulus, wlet)"
    if "ridge_readout ev dt periods signal = Inr q"
    using that by (rule ridge_readout_spectrum)
  have stack: "\<exists>grid phases ridge_periods powers amplitudes c1 c2 c3 c4.
          (np_linspace Tmin Tmax nT :: 'e exn + 'a list) = Inr grid \<and>
          pixel_transform ev dt grid T_c L (get_column mov y x) =
            Inr (phases, ridge_periods, powers, amplitudes) \<and>
          broadcast_to N phases = (Inr c1 :: 'e exn + 'a list) \<and>
          broadcast_to N ridge_periods = (Inr c2 :: 'e exn + 'a list) \<and>
          broadcast_to N powers = (Inr c3 :: 'e exn + 'a list) \<and>
          broadcast_to N amplitudes = (Inr c4 :: 'e exn + 'a list) \<and>
          get_column ph y x = map (astype ev Float32) c1 \<and>
          get_column pe y x = map (astype ev Float32) c2 \<and>
          get_column po y x = map (astype ev Float32) c3 \<and>
          get_column am y x = map (astype ev Float32) c4"
    if a: "transform_stack ev mov dt Tmin Tmax nT T_c L = Inr (ph, pe, po, am) \<and>
     shape mov = (N, H, W) \<and> x < W \<and> y < H"
  proof -
    from a have "transform_stack ev mov dt Tmin Tmax nT T_c L = Inr (ph, pe, po, am)"
      "shape mov = (N, H, W)" "x < W" "y < H" by simp_all
    then show ?thesis by (rule transform_stack_pixel)
  qed
  from none detrend normalize both spectrum stack show ?thesis by blast
qed

theorem preprocessing_branches_witness:
  "sinc_smooth demo_env [1, 3] 2 1 = Inr [2, 2] \<and>
   normalize_with_envelope demo_env [1, 3] 3 1 = Inr [3, 9] \<and>
   normalize_with_envelope demo_env (map2 (\<lambda>u w. u - w) [1, 3] [2, 2]) 3 1 = Inr [- 3, 3] \<and>
   pixel_transform demo_env 1 [10, 20, 30] (Some 2) None [1, 3] =
     ridge_readout demo_env 1 [10, 20, 30] [- 1, 1] \<and>
   pixel_transform demo_env 1 [10, 20, 30] None (Some 3) [1, 3] =
     ridge_readout demo_env 1 [10, 20, 30] [3, 9] \<and>
   pixel_transform demo_env 1 [10, 20, 30] (Some 2) (Some 3) [1, 3] =
     ridge_readout demo_env 1 [10, 20, 30] [- 3, 3] \<and>
   ridge_readout demo_env 1 [10, 20, 30] [- 3, 3] = Inr ([27, 33], [30, 30], [- 90, 90], [- 60, 120]) \<and>
   (\<exists>modulus wlet. compute_spectrum demo_env [- 3, 3] 1 [10, 20, 30] = Inr (modulus, wlet)) \<and>
   get_column demo_movie 0 0 = [1, 3] \<and>
   transform_stack demo_env demo_movie 1 10 30 3 (Some 2) (Some 3) =
     Inr (\<lparr>shape = (2, 2, 1), dtype = Float32, frames = [[[27], [30]], [[33], [36]]]\<rparr>,
          \<lparr>shape = (2, 2, 1), dtype = Float32, frames = [[[30], [30]], [[30], [30]]]\<rparr>,
          \<lparr>shape = (2, 2, 1), dtype = Float32, frames = [[[- 90], [0]], [[90], [180]]]\<rparr>,
          \<lparr>shape = (2, 2, 1), dtype = Float32, frames = [[[- 60], [30]], [[120], [210]]]\<rparr>) \<and>
   (\<exists>grid phases ridge_periods powers amplitudes c1 c2 c3 c4.
      (np_linspace 10 30 3 :: unit exn + rat list) = Inr grid \<and>
      pixel_transform demo_env 1 grid (Some 2) (Some 3) (get_column demo_movie 0 0) =
        Inr (phases, ridge_periods, powers, amplitudes) \<and>
      broadcast_to 2 phases = (Inr c1 :: unit exn + rat list) \<and>
      broadcast_to 2 ridge_periods = (Inr c2 :: unit exn + rat list) \<and>
      broadcast_to 2 powers = (Inr c3 :: unit exn + rat list) \<and>
      broadcast_to 2 amplitudes = (Inr c4 :: unit exn + rat list) \<and>
      get_column \<lparr>shape = (2, 2, 1), dtype = Float32, frames = [[[27], [30]], [[33], [36]]]\<rparr> 0 0 =
        map (astype demo_env Float32) c1 \<and>
      get_column \<lparr>shape = (2, 2, 1), dtype = Float32, frames = [[[30], [30]], [[30], [30]]]\<rparr> 0 0 =
        map (astype demo_env Float32) c2 \<and>
      get_column \<lparr>shape = (2, 2, 1), dtype = Float32, frames = [[[- 90], [0]], [[90], [180]]]\<rparr> 0 0 =
        map (astype demo_env Float32) c3 \<and>
      get_column \<lparr>shape = (2, 2, 1), dtype = Float32, frames = [[[- 60], [30]], [[120], [210]]]\<rparr> 0 0 =
        map (astype demo_env Float32) c4)"
proof -
  have s: "sinc_smooth demo_env [1, 3] 2 1 = Inr [2, 2]" by code_simp
  have len: "length [2, 2 :: rat] = length [1, 3 :: rat]" by simp
  have n1: "normalize_with_envelope demo_env [1, 3] 3 1 = Inr [3, 9]" by code_simp
  have n2: "normalize_with_envelope demo_env (map2 (\<lambda>u w. u - w) [1, 3] [2, 2]) 3 1 = Inr [- 3, 3]"
    by code_simp
  have d: "map2 (\<lambda>u w. u - w) [1, 3] [2, 2 :: rat] = [- 1, 1]" by simp
  have rr: "ridge_readout demo_env 1 [10, 20, 30] [- 3, 3] =
      Inr ([27, 33], [30, 30], [- 90, 90], [- 60, 120])" by code_simp
  have col: "get_column demo_movie 0 0 = [1, 3]" by code_simp
  have shp: "shape demo_movie = (2, 2, 1)" by code_simp
  have ts: "transform_stack demo_env demo_movie 1 10 30 3 (Some 2) (Some 3) =
     Inr (\<lparr>shape = (2, 2, 1), dtype = Float32, frames = [[[27], [30]], [[33], [36]]]\<rparr>,
          \<lparr>shape = (2, 2, 1), dtype = Float32, frames = [[[30], [30]], [[30], [30]]]\<rparr>,
          \<lparr>shape = (2, 2, 1), dtype = Float32, frames = [[[- 90], [0]], [[90], [180]]]\<rparr>,
          \<lparr>shape = (2, 2, 1), dtype = Float32, frames = [[[- 60], [30]], [[120], [210]]]\<rparr>)"
    by code_simp
  note t = preprocessing_branches [where ev = demo_env and dt = 1 and periods = "[10, 20, 30]"
      and v = "[1, 3]" and c = 2 and trend = "[2, 2]" and l = 3 and normalized = "[3, 9]"
      and normalized' = "[- 3, 3]" and signal = "[- 3, 3]"
      and q = "([27, 33], [30, 30], [- 90, 90], [- 60, 120])"
      and mov = demo_movie and Tmin = 10 and Tmax = 30 and nT = 3 and T_c = "Some 2"
      and L = "Some 3" and N = 2 and H = 2 and W = 1 and x = 0 and y = 0
      and ph = "\<lparr>shape = (2, 2, 1), dtype = Float32, frames = [[[27], [30]], [[33], [36]]]\<rparr>"
      and pe = "\<lparr>shape = (2, 2, 1), dtype = Float32, frames = [[[30], [30]], [[30], [30]]]\<rparr>"
      and po = "\<lparr>shape = (2, 2, 1), dtype = Float32, frames = [[[- 90], [0]], [[90], [180]]]\<rparr>"
      and am = "\<lparr>shape = (2, 2, 1), dtype = Float32, frames = [[[- 60], [30]], [[120], [210]]]\<rparr>"]
  from t s len have b: "pixel_transform demo_env 1 [10, 20, 30] (Some 2) None [1, 3] =
     ridge_readout demo_env 1 [10, 20, 30] [- 1, 1]" unfolding d by blast
  from t n1 have c: "pixel_transform demo_env 1 [10, 20, 30] None (Some 3) [1, 3] =
     ridge_readout demo_env 1 [10, 20, 30] [3, 9]" by blast
  from t s len n2 have e: "pixel_transform demo_env 1 [10, 20, 30] (Some 2) (Some 3) [1, 3] =
     ridge_readout demo_env 1 [10, 20, 30] [- 3, 3]" by blast
  from t rr have f: "\<exists>modulus wlet. compute_spectrum demo_env [- 3, 3] 1 [10, 20, 30] = Inr (modulus, wlet)"
    by blast
  have xy: "(0::nat) < 1" "(0::nat) < 2" by simp_all
  from t ts shp xy have g: "\<exists>grid phases ridge_periods powers amplitudes c1 c2 c3 c4.
      (np_linspace 10 30 3 :: unit exn + rat list) = Inr grid \<and>
      pixel_transform demo_env 1 grid (Some 2) (Some 3) (get_column demo_movie 0 0) =
        Inr (phases, ridge_periods, powers, amplitudes) \<and>
      broadcast_to 2 phases = (Inr c1 :: unit exn + rat list) \<and>
      broadcast_to 2 ridge_periods = (Inr c2 :: unit exn + rat list) \<and>
      broadcast_to 2 powers = (Inr c3 :: unit exn + rat list) \<and>
      broadcast_to 2 amplitudes = (Inr c4 :: unit exn + rat list) \<and>
      get_column \<lparr>shape = (2, 2, 1), dtype = Float32, frames = [[[27], [30]], [[33], [36]]]\<rparr> 0 0 =
        map (astype demo_env Float32) c1 \<and>
      get_column \<lparr>shape = (2, 2, 1), dtype = Float32, frames = [[[30], [30]], [[30], [30]]]\<rparr> 0 0 =
        map (astype demo_env Float32) c2 \<and>
      get_column \<lparr>shape = (2, 2, 1), dtype = Float32, frames = [[[- 90], [0]], [[90], [180]]]\<rparr> 0 0 =
        map (astype demo_env Float32) c3 \<and>
      get_column \<lparr>shape = (2, 2, 1), dtype = Float32, frames = [[[- 60], [30]], [[120], [210]]]\<rparr> 0 0 =
        map (astype demo_env Float32) c4"
    by blast
  from s n1 n2 b c e rr f col ts g show ?thesis by (intro conjI)
qed

subsection \<open>The input movie is left as it is\<close>

lemma transform_pixel_movie:
  "transform_pixel ev dt periods T_c L x y st = Inr st' \<Longrightarrow> movie st' = movie st"
  by (auto simp: transform_pixel_def Let_def split: sum.splits prod.splits)

lemma for_each_invariant:
  assumes "\<And>i s s'. body i s = Inr s' \<Longrightarrow> P s \<Longrightarrow> P s'"
  shows "for_each xs body s = Inr s' \<Longrightarrow> P s \<Longrightarrow> P s'"
proof (induction xs arbitrary: s)
  case Nil
  then show ?case by simp
next
  case (Cons i xs)
  from Cons.prems(1) obtain s1 where b: "body i s = Inr s1" and r: "for_each xs body s1 = Inr s'"
    by (auto split: sum.splits)
  from assms [OF b Cons.prems(2)] have "P s1" .
  with r show ?case by (rule Cons.IH)
qed

lemma transform_loop_movie:
  assumes "transform_loop ev dt periods T_c L mov = Inr st"
  shows "movie st = mov"
proof -
  define st0 where "st0 = \<lparr>movie = mov,
                phase_movie = np_zeros (shape mov) Float32,
                period_movie = np_zeros (shape mov) Float32,
                power_movie = np_zeros (shape mov) Float32,
                amplitude_movie = np_zeros (shape mov) Float32\<rparr>"
  define ydim where "ydim = fst (snd (shape mov))"
  define xdim where "xdim = snd (snd (shape mov))"
  have pixel: "movie s' = mov"
    if "transform_pixel ev dt periods T_c L x y s = Inr s'" "movie s = mov" for x y s s'
    using transform_pixel_movie [OF that(1)] that(2) by simp
  have row: "movie s' = mov"
    if "for_each [0..<ydim] (\<lambda>y. transform_pixel ev dt periods T_c L x y) s = Inr s'"
      "movie s = mov" for x s s'
    using _ that by (rule for_each_invariant [where P = "\<lambda>s. movie s = mov"]) (rule pixel)
  from assms have "for_each [0..<xdim]
      (\<lambda>x. for_each [0..<ydim] (\<lambda>y. transform_pixel ev dt periods T_c L x y)) st0 = Inr st"
    by (simp add: transform_loop_def Let_def st0_def ydim_def xdim_def)
  moreover have "movie st0 = mov" by (simp add: st0_def)
  ultimately show ?thesis
    using _ by (rule for_each_invariant [where P = "\<lambda>s. movie s = mov", rotated 1]) (rule row)
qed

text \<open>
  Claim C10. When \<^verbatim>\<open>transform_stack\<close> or \<^verbatim>\<open>run_parallel\<close> returns, the variable \<^verbatim>\<open>movie\<close>
  holds the array it held at the call: the loop reads time series from it and writes to
  the four arrays allocated by \<^verbatim>\<open>np.zeros\<close> only, and \<^verbatim>\<open>run_parallel\<close> splits it, hands the
  slices to the workers and assigns to the four outputs only. (The external routines are
  functions of their arguments in this model; that they do not write into an array they
  are given is assumed, not proved.)
\<close>

theorem input_movie_unchanged:
  fixes ev :: "('a::linordered_field, 'c, 'x, 'e) env"
  shows "(transform_stack_vars ev mov dt Tmin Tmax nT T_c L = Inr st \<longrightarrow> movie st = mov) \<and>
         (run_parallel_vars ev mov n_cpu dt Tmin Tmax nT T_c L = Inr st' \<longrightarrow> movie st' = mov)"
proof -
  have one: "movie st = mov" if "transform_stack_vars ev mov dt Tmin Tmax nT T_c L = Inr st"
  proof (cases "np_linspace Tmin Tmax nT :: 'e exn + 'a list")
    case (Inl e)
    with that show ?thesis by (simp add: transform_stack_vars_def)
  next
    case (Inr periods)
    with that have "transform_loop ev dt periods T_c L mov = Inr st"
      by (simp add: transform_stack_vars_def)
    then show ?thesis by (rule transform_loop_movie)
  qed
  have two: "movie st' = mov" if "run_parallel_vars ev mov n_cpu dt Tmin Tmax nT T_c L = Inr st'"
    using that
    by (auto simp: run_parallel_vars_def Let_def split: sum.splits if_splits)
  from one two show ?thesis by blast
qed

theorem input_movie_unchanged_witness:
  "transform_stack_vars demo_env demo_movie 1 10 30 3 None None =
     Inr \<lparr>movie = demo_movie,
          phase_movie = \<lparr>shape = (2, 2, 1), dtype = Float32, frames = [[[31], [32]], [[33], [34]]]\<rparr>,
          period_movie = \<lparr>shape = (2, 2, 1), dtype = Float32, frames = [[[30], [30]], [[30], [30]]]\<rparr>,
          power_movie = \<lparr>shape = (2, 2, 1), dtype = Float32, frames = [[[30], [60]], [[90], [120]]]\<rparr>,
          amplitude_movie = \<lparr>shape = (2, 2, 1), dtype = Float32, frames = [[[60], [90]], [[120], [150]]]\<rparr>\<rparr> \<and>
   movie (projr (transform_stack_vars demo_env demo_movie 1 10 30 3 None None)) = demo_movie \<and>
   \<not> isl (run_parallel_vars demo_env demo_movie 2 1 10 30 3 None None) \<and>
   movie (projr (run_parallel_vars demo_env demo_movie 2 1 10 30 3 None None)) = demo_movie"
proof -
  have ts: "transform_stack_vars demo_env demo_movie 1 10 30 3 None None =
     Inr \<lparr>movie = demo_movie,
          phase_movie = \<lparr>shape = (2, 2, 1), dtype = Float32, frames = [[[31], [32]], [[33], [34]]]\<rparr>,
          period_movie = \<lparr>shape = (2, 2, 1), dtype = Float32, frames = [[[30], [30]], [[30], [30]]]\<rparr>,
          power_movie = \<lparr>shape = (2, 2, 1), dtype = Float32, frames = [[[30], [60]], [[90], [120]]]\<rparr>,
          amplitude_movie = \<lparr>shape = (2, 2, 1), dtype = Float32, frames = [[[60], [90]], [[120], [150]]]\<rparr>\<rparr>"
    by code_simp
  have rp: "\<not> isl (run_parallel_vars demo_env demo_movie 2 1 10 30 3 None None)"
    by code_simp
  then obtain st' where st': "run_parallel_vars demo_env demo_movie 2 1 10 30 3 None None = Inr st'"
    by (cases "run_parallel_vars demo_env demo_movie 2 1 10 30 3 None None") auto
  from input_movie_unchanged [of demo_env demo_movie 1 10 30 3 None None _ 2 st'] ts st' rp
  show ?thesis by simp
qed

end
